theory Spec2Isabelle
  imports Complex_Main "HOL-Library.Sublist" "HOL-Library.Multiset"
begin

section \<open>Strings of the host language\<close>

text \<open>
  A string is a list of code units. The model uses \<^typ>\<open>char\<close>, so it covers the
  strings whose code units are below 256 (for HTTP header values that is every string).
\<close>

text \<open>\<^verbatim>\<open>s.includes(t)\<close>: \<open>t\<close> occurs in \<open>s\<close> as a contiguous run.\<close>

fun str_includes :: "string \<Rightarrow> string \<Rightarrow> bool" where
  "str_includes [] t = (t = [])"
| "str_includes (c # s) t = (prefix t (c # s) \<or> str_includes s t)"

text \<open>\<^verbatim>\<open>s.split(sep)\<close> for a one-character separator; the result is never empty.\<close>

fun split_on :: "char \<Rightarrow> string \<Rightarrow> string list" where
  "split_on sep [] = [] # []"
| "split_on sep (c # cs) =
     (if c = sep then [] # split_on sep cs
      else (case split_on sep cs of [] \<Rightarrow> [c] # [] | p # ps \<Rightarrow> (c # p) # ps))"

text \<open>
  \<^verbatim>\<open>s.trim()\<close>: the white space and line terminators of the language that lie below 256
  are TAB, LF, VT, FF, CR, SP and NBSP.
\<close>

definition is_ws :: "char \<Rightarrow> bool" where
  "is_ws c = ((of_char c :: nat) \<in> {9, 10, 11, 12, 13, 32, 160})"

definition trim :: "string \<Rightarrow> string" where
  "trim s = rev (dropWhile is_ws (rev (dropWhile is_ws s)))"

text \<open>\<^verbatim>\<open>xs.join(sep)\<close>\<close>

fun join :: "string \<Rightarrow> string list \<Rightarrow> string" where
  "join sep [] = []"
| "join sep [x] = x"
| "join sep (x # y # ys) = x @ sep @ join sep (y # ys)"

text \<open>Decimal rendering of a natural number, as a template literal prints a status code.\<close>

definition digit_char :: "nat \<Rightarrow> char" where
  "digit_char d = ''0123456789'' ! (d mod 10)"

fun show_nat :: "nat \<Rightarrow> string" where
  "show_nat n = (if n < 10 then [digit_char n] else show_nat (n div 10) @ [digit_char (n mod 10)])"

text \<open>\<^verbatim>\<open>s.slice(0, n)\<close> for \<open>n \<ge> 0\<close>\<close>

definition slice0 :: "nat \<Rightarrow> string \<Rightarrow> string" where
  "slice0 n s = take n s"

subsection \<open>\<^verbatim>\<open>encodeURIComponent\<close>\<close>

text \<open>
  Every code unit outside the unreserved set is replaced by the percent-escapes of its
  UTF-8 bytes, in upper-case hexadecimal. A code unit below 128 is one byte; one in
  128..255 is the two bytes \<open>0xC0 + n div 64\<close> and \<open>0x80 + n mod 64\<close>.
\<close>

definition uri_unreserved :: "char \<Rightarrow> bool" where
  "uri_unreserved c =
     (c \<in> set ''ABCDEFGHIJKLMNOPQRSTUVWXYZabcdefghijklmnopqrstuvwxyz0123456789-_.!~*'()'')"

definition hex_digit :: "nat \<Rightarrow> char" where
  "hex_digit d = ''0123456789ABCDEF'' ! (d mod 16)"

definition percent_byte :: "nat \<Rightarrow> string" where
  "percent_byte b = [CHR ''%'', hex_digit (b div 16), hex_digit (b mod 16)]"

definition encode_unit :: "char \<Rightarrow> string" where
  "encode_unit c =
     (let n = (of_char c :: nat) in
      if uri_unreserved c then [c]
      else if n < 128 then percent_byte n
      else percent_byte (192 + n div 64) @ percent_byte (128 + n mod 64))"

definition encodeURIComponent :: "string \<Rightarrow> string" where
  "encodeURIComponent s = concat (map encode_unit s)"

section \<open>Exceptions\<close>

text \<open>
  A thrown value is an error object with a name and a message. \<open>exn_to_string\<close> is what
  a template literal prints for it (\<^verbatim>\<open>Error.prototype.toString\<close>).
\<close>

datatype exn = Exn (exn_name: string) (exn_message: string)


text \<open>How a call ends: it returns a value or it throws.\<close>

datatype 'a outcome = Returned 'a | Thrown exn

section \<open>Objects\<close>

text \<open>
  Writing an own property of an object: the value of an existing property is replaced in
  place, a new property is added at the end of the enumeration order. The engine lists
  array-index keys first, in numeric order, whatever their creation order; the model keeps
  creation order, which is the same whenever such keys are created first and ascending, as
  when an object is rebuilt from its own entries. The theorems about merged objects speak
  of the value of a field only.
\<close>

fun assign_prop :: "string \<Rightarrow> 'v \<Rightarrow> (string \<times> 'v) list \<Rightarrow> (string \<times> 'v) list" where
  "assign_prop k v [] = [(k, v)]"
| "assign_prop k v ((k', v') # kvs) =
     (if k' = k then (k, v) # kvs else (k', v') # assign_prop k v kvs)"

section \<open>Parsed JSON\<close>

text \<open>
  The values \<^verbatim>\<open>response.json()\<close> can produce, and \<^verbatim>\<open>undefined\<close>. Numbers are exact
  rationals: rounding and the signed zero of the floating-point format are not modelled.
  An object is the list of its properties in enumeration order.
\<close>

datatype jsval =
    Undefined
  | JNull
  | JBool bool
  | JNum rat
  | JStr string
  | JArr "jsval list"
  | JObj "(string \<times> jsval) list"

text \<open>
  An object under construction: its own properties and its prototype. A fresh \<^verbatim>\<open>{}\<close> has
  \<^verbatim>\<open>Object.prototype\<close>, which carries the accessor \<^verbatim>\<open>__proto__\<close>; every parsed value has the
  default prototype of its kind. Only the own properties reach \<^verbatim>\<open>JSON.stringify\<close>.
\<close>

datatype prototype = ObjectPrototype | NullPrototype | ValuePrototype jsval

type_synonym js_object = "(string \<times> jsval) list \<times> prototype"

definition empty_object :: js_object where
  "empty_object = ([], ObjectPrototype)"

text \<open>
  Does an assignment to \<^verbatim>\<open>__proto__\<close>, on an object without an own property of that name,
  reach the setter of \<^verbatim>\<open>Object.prototype\<close>? Not through a null prototype, and not through
  a parsed object that has \<^verbatim>\<open>__proto__\<close> as an own data property (as \<^verbatim>\<open>JSON.parse\<close> creates
  it); through every other parsed object or array it does.
\<close>

fun inherits_setter :: "prototype \<Rightarrow> bool" where
  "inherits_setter ObjectPrototype = True"
| "inherits_setter NullPrototype = False"
| "inherits_setter (ValuePrototype (JObj kvs)) = (''__proto__'' \<notin> fst ` set kvs)"
| "inherits_setter (ValuePrototype v) = True"

text \<open>
  The setter: an object or array becomes the prototype, \<^verbatim>\<open>null\<close> removes it, any other
  value is ignored.
\<close>

fun proto_setter :: "jsval \<Rightarrow> prototype \<Rightarrow> prototype" where
  "proto_setter (JObj kvs) p = ValuePrototype (JObj kvs)"
| "proto_setter (JArr xs) p = ValuePrototype (JArr xs)"
| "proto_setter JNull p = NullPrototype"
| "proto_setter v p = p"

text \<open>
  \<^verbatim>\<open>obj[k] = v\<close>, the operation \<^verbatim>\<open>Object.assign\<close> performs as well: an assignment to
  \<^verbatim>\<open>__proto__\<close> that reaches the setter creates no property; every other assignment writes
  an own property (no other inherited property is an accessor or read-only).
\<close>

definition js_set :: "string \<Rightarrow> jsval \<Rightarrow> js_object \<Rightarrow> js_object" where
  "js_set k v obj =
     (case obj of (own, p) \<Rightarrow>
        if k = ''__proto__'' \<and> k \<notin> fst ` set own \<and> inherits_setter p
        then (own, proto_setter v p)
        else (assign_prop k v own, p))"

section \<open>The network\<close>

datatype redirect_mode = Manual | Follow

record request =
  req_url :: string
  req_headers :: "(string \<times> string) list"
  req_redirect :: redirect_mode

text \<open>
  A response: the status line, the \<^verbatim>\<open>Set-Cookie\<close> header as \<^verbatim>\<open>headers.get\<close> reports it
  (\<open>None\<close> when absent), and what reading the body as text and as JSON gives (either
  read may fail).
\<close>

record response =
  status :: nat
  statusText :: string
  set_cookie :: "string option"
  text_body :: "exn + string"
  json_body :: "exn + jsval"

definition ok :: "response \<Rightarrow> bool" where
  "ok r = (200 \<le> status r \<and> status r \<le> 299)"

text \<open>\<^verbatim>\<open>fetch\<close> either rejects or resolves to a response.\<close>

type_synonym net = "request \<Rightarrow> exn + response"

definition BASE_URL :: string where
  "BASE_URL = ''https://query1.finance.yahoo.com''"

definition BASE_URL_V2 :: string where
  "BASE_URL_V2 = ''https://query2.finance.yahoo.com''"

definition HEADERS :: "(string \<times> string) list" where
  "HEADERS =
     [(''User-Agent'', ''Mozilla/5.0 (Macintosh; Intel Mac OS X 10_15_7) AppleWebKit/537.36 (KHTML, like Gecko) Chrome/120.0.0.0 Safari/537.36''),
      (''Accept'', ''text/html,application/xhtml+xml,application/xml;q=0.9,image/webp,*/*;q=0.8''),
      (''Accept-Language'', ''en-US,en;q=0.5'')]"

section \<open>The credential cache\<close>

text \<open>The three module-level variables \<^verbatim>\<open>cachedCrumb\<close>, \<^verbatim>\<open>cachedCookie\<close>, \<^verbatim>\<open>cacheExpiry\<close>.\<close>

record cache =
  cachedCrumb :: "string option"
  cachedCookie :: "string option"
  cacheExpiry :: int

definition initial_cache :: cache where
  "initial_cache = \<lparr>cachedCrumb = None, cachedCookie = None, cacheExpiry = 0\<rparr>"

record auth =
  crumb :: string
  cookie :: string

text \<open>
  The cache-hit test of both implementations:
  \<^verbatim>\<open>cachedCrumb && cachedCookie && now < cacheExpiry\<close>.
\<close>

definition cache_hit :: "int \<Rightarrow> cache \<Rightarrow> auth option" where
  "cache_hit now s =
     (case (cachedCrumb s, cachedCookie s) of
        (Some r, Some c) \<Rightarrow>
          if r \<noteq> [] \<and> c \<noteq> [] \<and> now < cacheExpiry s then Some \<lparr>crumb = r, cookie = c\<rparr> else None
      | _ \<Rightarrow> None)"

text \<open>\<^verbatim>\<open>c.split(";")[0]\<close>\<close>

definition first_field :: "string \<Rightarrow> string" where
  "first_field c = (case split_on CHR '';'' c of [] \<Rightarrow> [] | p # ps \<Rightarrow> p)"

text \<open>
  The name=value pairs that \<^verbatim>\<open>getCrumb\<close> takes from a \<^verbatim>\<open>Set-Cookie\<close> value:
  \<^verbatim>\<open>h.split(",").map(c => c.split(";")[0].trim()).filter(Boolean)\<close>.
\<close>

definition cookie_pairs :: "string \<Rightarrow> string list" where
  "cookie_pairs h = filter (\<lambda>c. c \<noteq> []) (map (\<lambda>c. trim (first_field c)) (split_on CHR '','' h))"

text \<open>
  \<^verbatim>\<open>let cookies = ""; const setCookie = r.headers.get("set-cookie");
  if (setCookie) cookies = ....join("; ")\<close>
\<close>

definition cookies_of :: "response \<Rightarrow> string" where
  "cookies_of r =
     (case set_cookie r of
        None \<Rightarrow> []
      | Some h \<Rightarrow> if h = [] then [] else join ''; '' (cookie_pairs h))"

text \<open>
  The other implementation (\<^verbatim>\<open>getCookieAndCrumb\<close>) has no \<^verbatim>\<open>filter(Boolean)\<close>:
  \<^verbatim>\<open>(r.headers.get("set-cookie") || "").split(",").map(c => c.split(";")[0].trim()).join("; ")\<close>.
\<close>

definition cookies_of_home :: "response \<Rightarrow> string" where
  "cookies_of_home r =
     (let setCookieHeader = (case set_cookie r of None \<Rightarrow> [] | Some h \<Rightarrow> h)
      in join ''; '' (map (\<lambda>c. trim (first_field c)) (split_on CHR '','' setCookieHeader)))"

definition fc_request :: request where
  "fc_request = \<lparr>req_url = ''https://fc.yahoo.com'', req_headers = HEADERS, req_redirect = Manual\<rparr>"

definition finance_request :: request where
  "finance_request = \<lparr>req_url = ''https://finance.yahoo.com'', req_headers = HEADERS, req_redirect = Follow\<rparr>"

definition crumb_request :: "string \<Rightarrow> string \<Rightarrow> request" where
  "crumb_request base cookies =
     \<lparr>req_url = base @ ''/v1/test/getcrumb'', req_headers = assign_prop ''Cookie'' cookies HEADERS,
      req_redirect = Follow\<rparr>"

definition THIRTY_MINUTES :: int where
  "THIRTY_MINUTES = 30 * 60 * 1000"

subsection \<open>\<^verbatim>\<open>getCrumb\<close> (src/yahoo-finance-api.ts)\<close>

text \<open>
  Every function that touches the network returns its result together with the requests it
  issued, in order. Step 1 of the handshake, with its fallback: the cookie string (possibly
  empty), or the exception of a rejected \<^verbatim>\<open>fetch\<close>.
\<close>

definition getCrumb_cookies :: "net \<Rightarrow> (exn + string) \<times> request list" where
  "getCrumb_cookies net =
     (case net fc_request of
        Inl e \<Rightarrow> (Inl e, [fc_request])
      | Inr fcResponse \<Rightarrow>
          let cookies = cookies_of fcResponse in
          if cookies = [] then
            (case net finance_request of
               Inl e \<Rightarrow> (Inl e, [fc_request, finance_request])
             | Inr financeResponse \<Rightarrow> (Inr (cookies_of financeResponse), [fc_request, finance_request]))
          else (Inr cookies, [fc_request]))"

text \<open>
  Step 2, from \<^verbatim>\<open>if (!cookies)\<close> to the end of the \<^verbatim>\<open>try\<close> block: the value returned
  (or the exception), the cache afterwards and the requests issued.
\<close>

definition getCrumb_crumb ::
  "net \<Rightarrow> int \<Rightarrow> cache \<Rightarrow> string \<Rightarrow> (exn + auth option) \<times> cache \<times> request list" where
  "getCrumb_crumb net now s cookies =
     (if cookies = [] then (Inr None, s, [])
      else
        let req = crumb_request BASE_URL cookies in
        case net req of
          Inl e \<Rightarrow> (Inl e, s, [req])
        | Inr crumbResponse \<Rightarrow>
            if \<not> ok crumbResponse then (Inr None, s, [req])
            else
              (case text_body crumbResponse of
                 Inl e \<Rightarrow> (Inl e, s, [req])
               | Inr crumbText \<Rightarrow>
                   if crumbText = [] \<or> str_includes crumbText ''<'' \<or> str_includes crumbText ''error''
                   then (Inr None, s, [req])
                   else (Inr (Some \<lparr>crumb = crumbText, cookie = cookies\<rparr>),
                         \<lparr>cachedCrumb = Some crumbText, cachedCookie = Some cookies,
                          cacheExpiry = now + THIRTY_MINUTES\<rparr>,
                         [req])))"

definition getCrumb_try :: "net \<Rightarrow> int \<Rightarrow> cache \<Rightarrow> (exn + auth option) \<times> cache \<times> request list" where
  "getCrumb_try net now s =
     (case getCrumb_cookies net of
        (Inl e, tr) \<Rightarrow> (Inl e, s, tr)
      | (Inr cookies, tr) \<Rightarrow>
          (case getCrumb_crumb net now s cookies of (r, s', tr') \<Rightarrow> (r, s', tr @ tr')))"

text \<open>
  The whole function: the cache test, then the \<^verbatim>\<open>try\<close> block, whose \<^verbatim>\<open>catch\<close> turns every
  exception into \<^verbatim>\<open>null\<close>.
\<close>

definition getCrumb :: "net \<Rightarrow> int \<Rightarrow> cache \<Rightarrow> auth option outcome \<times> cache \<times> request list" where
  "getCrumb net now s =
     (case cache_hit now s of
        Some a \<Rightarrow> (Returned (Some a), s, [])
      | None \<Rightarrow>
          (case getCrumb_try net now s of
             (Inl error, s', tr) \<Rightarrow> (Returned None, s', tr)
           | (Inr r, s', tr) \<Rightarrow> (Returned r, s', tr)))"

subsection \<open>\<^verbatim>\<open>getCookieAndCrumb\<close> (the second implementation)\<close>

definition getCookieAndCrumb :: "net \<Rightarrow> int \<Rightarrow> cache \<Rightarrow> auth outcome \<times> cache \<times> request list" where
  "getCookieAndCrumb net now s =
     (case cache_hit now s of
        Some a \<Rightarrow> (Returned a, s, [])
      | None \<Rightarrow>
          (case net finance_request of
             Inl e \<Rightarrow> (Thrown e, s, [finance_request])
           | Inr homeResponse \<Rightarrow>
               let cookies = cookies_of_home homeResponse in
               if cookies = [] then
                 (Thrown (Exn ''Error'' ''Failed to get Yahoo cookie''), s, [finance_request])
               else
                 let req = crumb_request BASE_URL_V2 cookies in
                 (case net req of
                    Inl e \<Rightarrow> (Thrown e, s, [finance_request, req])
                  | Inr crumbResponse \<Rightarrow>
                      (case text_body crumbResponse of
                         Inl e \<Rightarrow> (Thrown e, s, [finance_request, req])
                       | Inr crumbText \<Rightarrow>
                           if crumbText = [] \<or> str_includes crumbText ''error''
                           then (Thrown (Exn ''Error'' ''Failed to get Yahoo crumb''), s,
                                 [finance_request, req])
                           else (Returned \<lparr>crumb = crumbText, cookie = cookies\<rparr>,
                                 \<lparr>cachedCrumb = Some crumbText, cachedCookie = Some cookies,
                                  cacheExpiry = now + THIRTY_MINUTES\<rparr>,
                                 [finance_request, req])))))"

section \<open>The authenticated fetcher\<close>

subsection \<open>\<^verbatim>\<open>fetchYahoo\<close> (src/yahoo-finance-api.ts)\<close>

text \<open>
  \<^verbatim>\<open>headers["Cookie"] = auth.cookie;
  finalUrl += (url.includes("?") ? "&" : "?") + `crumb=${encodeURIComponent(auth.crumb)}`\<close>
\<close>

definition authenticated_request :: "string \<Rightarrow> auth \<Rightarrow> request" where
  "authenticated_request u a =
     \<lparr>req_url = u @ (if str_includes u ''?'' then ''&'' else ''?'') @ ''crumb='' @
                  encodeURIComponent (crumb a),
      req_headers = assign_prop ''Cookie'' (cookie a) HEADERS,
      req_redirect = Follow\<rparr>"

definition plain_request :: "string \<Rightarrow> request" where
  "plain_request u = \<lparr>req_url = u, req_headers = HEADERS, req_redirect = Follow\<rparr>"

text \<open>
  When \<^verbatim>\<open>getCrumb\<close> returns \<^verbatim>\<open>null\<close> the request goes out without credentials. A response
  that is not ok is turned into \<^verbatim>\<open>new Error(`HTTP ${status}: ${text.slice(0, 200)}`)\<close>.
\<close>

definition fetchYahoo ::
  "net \<Rightarrow> int \<Rightarrow> cache \<Rightarrow> string \<Rightarrow> bool \<Rightarrow> response outcome \<times> cache \<times> request list" where
  "fetchYahoo net now s u needsCrumb =
     (case (if needsCrumb then getCrumb net now s else (Returned None, s, [])) of
        (Thrown e, s', tr) \<Rightarrow> (Thrown e, s', tr)
      | (Returned a, s', tr) \<Rightarrow>
          let req = (case a of Some au \<Rightarrow> authenticated_request u au | None \<Rightarrow> plain_request u) in
          (case net req of
             Inl e \<Rightarrow> (Thrown e, s', tr @ [req])
           | Inr resp \<Rightarrow>
               if \<not> ok resp then
                 (case text_body resp of
                    Inl e \<Rightarrow> (Thrown e, s', tr @ [req])
                  | Inr text \<Rightarrow>
                      (Thrown (Exn ''Error''
                         (''HTTP '' @ show_nat (status resp) @ '': '' @ slice0 200 text)),
                       s', tr @ [req]))
               else (Returned resp, s', tr @ [req])))"

subsection \<open>\<^verbatim>\<open>fetchYahoo\<close> (the second implementation)\<close>

text \<open>
  Here a failed acquisition propagates, and the error of a response that is not ok carries
  the status text: \<^verbatim>\<open>new Error(`HTTP ${response.status}: ${response.statusText}`)\<close>.
\<close>

definition fetchYahoo_alt ::
  "net \<Rightarrow> int \<Rightarrow> cache \<Rightarrow> string \<Rightarrow> bool \<Rightarrow> response outcome \<times> cache \<times> request list" where
  "fetchYahoo_alt net now s u useCrumb =
     (case (if useCrumb
            then (case getCookieAndCrumb net now s of
                    (Thrown e, s', tr) \<Rightarrow> (Thrown e, s', tr)
                  | (Returned au, s', tr) \<Rightarrow> (Returned (authenticated_request u au), s', tr))
            else (Returned (plain_request u), s, [])) of
        (Thrown e, s', tr) \<Rightarrow> (Thrown e, s', tr)
      | (Returned req, s', tr) \<Rightarrow>
          (case net req of
             Inl e \<Rightarrow> (Thrown e, s', tr @ [req])
           | Inr resp \<Rightarrow>
               if \<not> ok resp then
                 (Thrown (Exn ''Error''
                    (''HTTP '' @ show_nat (status resp) @ '': '' @ statusText resp)),
                  s', tr @ [req])
               else (Returned resp, s', tr @ [req])))"



section \<open>Values of the host language\<close>

text \<open>
  A property read from a parsed JSON value that is an own data property: no name used by
  the client (\<^verbatim>\<open>chart\<close>, \<^verbatim>\<open>error\<close>, \<^verbatim>\<open>result\<close>, \<^verbatim>\<open>raw\<close>, ...) is a built-in property of
  strings, arrays or objects. A missing property reads as \<open>Undefined\<close>.
\<close>

fun lookup_prop :: "(string \<times> jsval) list \<Rightarrow> string \<Rightarrow> jsval" where
  "lookup_prop kvs k = (case map_of kvs k of None \<Rightarrow> Undefined | Some x \<Rightarrow> x)"

text \<open>Truthiness.\<close>

fun truthy :: "jsval \<Rightarrow> bool" where
  "truthy Undefined = False"
| "truthy JNull = False"
| "truthy (JBool b) = b"
| "truthy (JNum n) = (n \<noteq> 0)"
| "truthy (JStr s) = (s \<noteq> [])"
| "truthy (JArr xs) = True"
| "truthy (JObj kvs) = True"

text \<open>\<^verbatim>\<open>typeof v === "object"\<close>\<close>

fun typeof_object :: "jsval \<Rightarrow> bool" where
  "typeof_object JNull = True"
| "typeof_object (JArr xs) = True"
| "typeof_object (JObj kvs) = True"
| "typeof_object v = False"



text \<open>\<^verbatim>\<open>v?.k\<close>\<close>

fun opt_prop :: "jsval \<Rightarrow> string \<Rightarrow> jsval" where
  "opt_prop (JObj kvs) k = lookup_prop kvs k"
| "opt_prop v k = Undefined"


text \<open>\<^verbatim>\<open>k in v\<close> for an object-typed, non-null \<open>v\<close> and a name that is not an array index.\<close>

fun has_prop :: "string \<Rightarrow> jsval \<Rightarrow> bool" where
  "has_prop k (JObj kvs) = (k \<in> fst ` set kvs)"
| "has_prop k v = False"

text \<open>
  \<^verbatim>\<open>Object.entries(v)\<close>, the own enumerable string-keyed properties: the entries of an object,
  the indexed elements of an array, the indexed characters of a string; \<^verbatim>\<open>null\<close> and
  \<^verbatim>\<open>undefined\<close> throw.
\<close>

definition indexed :: "'a list \<Rightarrow> (string \<times> 'a) list" where
  "indexed xs = zip (map show_nat [0..<length xs]) xs"

fun own_entries :: "jsval \<Rightarrow> (string \<times> jsval) list" where
  "own_entries (JObj kvs) = kvs"
| "own_entries (JArr xs) = indexed xs"
| "own_entries (JStr s) = indexed (map (\<lambda>c. JStr [c]) s)"
| "own_entries v = []"

definition object_entries :: "jsval \<Rightarrow> exn + (string \<times> jsval) list" where
  "object_entries v =
     (if v = Undefined \<or> v = JNull
      then Inl (Exn ''TypeError'' ''Cannot convert undefined or null to object'')
      else Inr (own_entries v))"

text \<open>A loop or \<^verbatim>\<open>map\<close> whose body may throw stops at the first exception.\<close>

fun map_exn :: "('a \<Rightarrow> exn + 'b) \<Rightarrow> 'a list \<Rightarrow> exn + 'b list" where
  "map_exn f [] = Inr []"
| "map_exn f (x # xs) =
     (case f x of
        Inl e \<Rightarrow> Inl e
      | Inr y \<Rightarrow> (case map_exn f xs of Inl e \<Rightarrow> Inl e | Inr ys \<Rightarrow> Inr (y # ys)))"


section \<open>Data shaping on untyped values\<close>

subsection \<open>\<^verbatim>\<open>getStockInfo\<close>: merging the modules\<close>

text \<open>
  \<^verbatim>\<open>const info = {};
  for (const [, value] of Object.entries(result))
    if (value && typeof value === "object") Object.assign(info, value);\<close>
\<close>

definition object_assign :: "js_object \<Rightarrow> jsval \<Rightarrow> js_object" where
  "object_assign target source = foldl (\<lambda>obj (k, x). js_set k x obj) target (own_entries source)"

definition mergeable :: "jsval \<Rightarrow> bool" where
  "mergeable v = (truthy v \<and> typeof_object v)"

definition merge_modules :: "(string \<times> jsval) list \<Rightarrow> (string \<times> jsval) list" where
  "merge_modules entries =
     fst (foldl (\<lambda>info (m, v). if mergeable v then object_assign info v else info)
            empty_object entries)"

subsection \<open>\<^verbatim>\<open>getFinancialStatement\<close>: flattening one statement\<close>

text \<open>
  The body of the loop over \<^verbatim>\<open>Object.entries(stmt)\<close>: a \<^verbatim>\<open>{raw: x}\<close> wrapper is replaced by
  \<^verbatim>\<open>x\<close>, \<^verbatim>\<open>endDate: {fmt: d}\<close> becomes \<^verbatim>\<open>date: d\<close>, anything else is copied.
\<close>

definition flatten_field :: "js_object \<Rightarrow> string \<times> jsval \<Rightarrow> js_object" where
  "flatten_field obj kv =
     (case kv of (key, v) \<Rightarrow>
        if truthy v \<and> typeof_object v \<and> has_prop ''raw'' v
          then js_set key (opt_prop v ''raw'') obj
        else if key = ''endDate'' \<and> truthy v \<and> typeof_object v \<and> has_prop ''fmt'' v
          then js_set ''date'' (opt_prop v ''fmt'') obj
        else js_set key v obj)"

definition flatten_entries :: "(string \<times> jsval) list \<Rightarrow> (string \<times> jsval) list" where
  "flatten_entries entries = fst (foldl flatten_field empty_object entries)"

definition flatten_stmt :: "jsval \<Rightarrow> exn + jsval" where
  "flatten_stmt stmt =
     (case object_entries stmt of
        Inl e \<Rightarrow> Inl e
      | Inr entries \<Rightarrow> Inr (JObj (flatten_entries entries)))"

subsection \<open>\<^verbatim>\<open>getHolderInfo\<close>: unwrapping \<^verbatim>\<open>raw\<close> recursively\<close>


section \<open>Data shaping on typed events\<close>

text \<open>
  \<^verbatim>\<open>new Date(ms).toISOString()\<close> throws a \<^verbatim>\<open>RangeError\<close> outside the range of time values.
  The string it returns is kept as the time value it denotes, which
  \<^verbatim>\<open>new Date(s).getTime()\<close> reads back.
\<close>

datatype isodate = ISO (getTime: int)

definition toISOString :: "int \<Rightarrow> exn + isodate" where
  "toISOString ms =
     (if \<bar>ms\<bar> \<le> 8640000000000000 then Inr (ISO ms)
      else Inl (Exn ''RangeError'' ''Invalid time value''))"

text \<open>Numbers that arithmetic produces: a division may leave the finite values.\<close>

datatype jsnum = Num rat | NaN | PosInfinity | NegInfinity

definition js_divide :: "rat \<Rightarrow> rat \<Rightarrow> jsnum" where
  "js_divide a b =
     (if b \<noteq> 0 then Num (a / b)
      else if a = 0 then NaN
      else if 0 < a then PosInfinity else NegInfinity)"

subsection \<open>\<^verbatim>\<open>getStockActions\<close>: dividends and splits\<close>

text \<open>
  The events of a chart response, in the order \<^verbatim>\<open>Object.values\<close> lists them: epoch seconds
  and amounts are numbers.
\<close>

record dividend_event =
  div_date :: int
  div_amount :: rat

record split_event =
  split_date :: int
  numerator :: rat
  denominator :: rat

record action =
  Date :: isodate
  Dividends :: jsnum
  Stock_Splits :: jsnum

definition dividend_action :: "dividend_event \<Rightarrow> exn + action" where
  "dividend_action d =
     (case toISOString (div_date d * 1000) of
        Inl e \<Rightarrow> Inl e
      | Inr isoString \<Rightarrow> Inr \<lparr>Date = isoString, Dividends = Num (div_amount d), Stock_Splits = Num 0\<rparr>)"

definition split_action :: "split_event \<Rightarrow> exn + action" where
  "split_action sp =
     (case toISOString (split_date sp * 1000) of
        Inl e \<Rightarrow> Inl e
      | Inr isoString \<Rightarrow>
          Inr \<lparr>Date = isoString, Dividends = Num 0,
               Stock_Splits = js_divide (numerator sp) (denominator sp)\<rparr>)"

text \<open>
  The two \<^verbatim>\<open>push\<close> loops, then
  \<^verbatim>\<open>actions.sort((a, b) => new Date(a.Date).getTime() - new Date(b.Date).getTime())\<close>;
  the sort of the language is stable.
\<close>

definition stock_actions :: "dividend_event list \<Rightarrow> split_event list \<Rightarrow> exn + action list" where
  "stock_actions dividends splits =
     (case map_exn dividend_action dividends of
        Inl e \<Rightarrow> Inl e
      | Inr ds \<Rightarrow>
          (case map_exn split_action splits of
             Inl e \<Rightarrow> Inl e
           | Inr ss \<Rightarrow> Inr (sort_key (\<lambda>a. getTime (Date a)) (ds @ ss))))"

subsection \<open>\<^verbatim>\<open>getRecommendations\<close>: upgrade and downgrade history\<close>

text \<open>
  A history entry: the firm, the grade date in epoch seconds (\<open>None\<close> when the field is
  missing or \<^verbatim>\<open>null\<close>) and the remaining fields, which the spread \<^verbatim>\<open>...item\<close> copies.
\<close>

record 'a grade =
  firm :: string
  epochGradeDate :: "int option"
  other_fields :: 'a

record 'a graded =
  item :: "'a grade"
  gradeDate :: "isodate option"

text \<open>\<^verbatim>\<open>item.epochGradeDate && item.epochGradeDate >= cutoffTs\<close>: zero is falsy.\<close>

definition admitted :: "int \<Rightarrow> 'a grade \<Rightarrow> bool" where
  "admitted cutoffTs i =
     (case epochGradeDate i of None \<Rightarrow> False | Some d \<Rightarrow> d \<noteq> 0 \<and> cutoffTs \<le> d)"

text \<open>\<^verbatim>\<open>(x.epochGradeDate || 0)\<close>\<close>

definition epoch_or_0 :: "'a grade \<Rightarrow> int" where
  "epoch_or_0 i = (case epochGradeDate i of None \<Rightarrow> 0 | Some d \<Rightarrow> d)"

text \<open>\<^verbatim>\<open>history.filter(...).sort((a, b) => (b.epochGradeDate || 0) - (a.epochGradeDate || 0))\<close>\<close>

definition filtered :: "int \<Rightarrow> 'a grade list \<Rightarrow> 'a grade list" where
  "filtered cutoffTs history = sort_key (\<lambda>i. - epoch_or_0 i) (filter (admitted cutoffTs) history)"

text \<open>The filter over \<^verbatim>\<open>seenFirms\<close>: an entry is kept when its firm has not been seen.\<close>

fun uniqueByFirm :: "string set \<Rightarrow> 'a grade list \<Rightarrow> 'a grade list" where
  "uniqueByFirm seenFirms [] = []"
| "uniqueByFirm seenFirms (i # rest) =
     (if firm i \<in> seenFirms then uniqueByFirm seenFirms rest
      else i # uniqueByFirm (insert (firm i) seenFirms) rest)"

text \<open>
  \<^verbatim>\<open>gradeDate: item.epochGradeDate ? new Date(item.epochGradeDate * 1000).toISOString() : null\<close>
\<close>

definition with_gradeDate :: "'a grade \<Rightarrow> exn + 'a graded" where
  "with_gradeDate i =
     (case epochGradeDate i of
        None \<Rightarrow> Inr \<lparr>item = i, gradeDate = None\<rparr>
      | Some d \<Rightarrow>
          if d = 0 then Inr \<lparr>item = i, gradeDate = None\<rparr>
          else (case toISOString (d * 1000) of
                  Inl e \<Rightarrow> Inl e
                | Inr isoString \<Rightarrow> Inr \<lparr>item = i, gradeDate = Some isoString\<rparr>))"

definition upgrades_downgrades :: "int \<Rightarrow> 'a grade list \<Rightarrow> exn + 'a graded list" where
  "upgrades_downgrades cutoffTs history =
     map_exn with_gradeDate (uniqueByFirm {} (filtered cutoffTs history))"

text \<open>
  The cutoff of src/yahoo-finance-api.ts:
  \<^verbatim>\<open>Math.floor((Date.now() - monthsBack * 30 * 24 * 60 * 60 * 1000) / 1000)\<close>.
  The second implementation takes it from the calendar (\<^verbatim>\<open>setMonth\<close>).
\<close>

definition cutoffTs_of :: "int \<Rightarrow> rat \<Rightarrow> int" where
  "cutoffTs_of now monthsBack =
     \<lfloor>(of_int now - monthsBack * 30 * 24 * 60 * 60 * 1000) / 1000\<rfloor>"

section \<open>The nine tool functions\<close>







text \<open>
  Each tool is its URL, its crumb flag and the rest of its \<^verbatim>\<open>try\<close> block after
  \<^verbatim>\<open>response.json()\<close>, under the common handler. Five tools convert numbers and dates of
  untyped values in their last step; that step is the argument \<open>shape\<close> (it may throw).
  The typed sections above model it for \<^verbatim>\<open>getStockActions\<close> and \<^verbatim>\<open>getRecommendations\<close>.
\<close>

subsection \<open>\<^verbatim>\<open>getHistoricalStockPrices\<close>\<close>




subsection \<open>\<^verbatim>\<open>getStockInfo\<close>\<close>




subsection \<open>\<^verbatim>\<open>getYahooFinanceNews\<close>\<close>





subsection \<open>\<^verbatim>\<open>getStockActions\<close>\<close>




subsection \<open>\<^verbatim>\<open>getFinancialStatement\<close>\<close>







subsection \<open>\<^verbatim>\<open>getHolderInfo\<close>\<close>







subsection \<open>\<^verbatim>\<open>getOptionExpirationDates\<close>\<close>




subsection \<open>\<^verbatim>\<open>getOptionChain\<close>\<close>






subsection \<open>\<^verbatim>\<open>getRecommendations\<close>\<close>





subsection \<open>The tools as the server registers them\<close>









section \<open>Environments for concrete runs\<close>

text \<open>A network that answers by URL from a table and rejects every other request.\<close>

definition scripted_net :: "(string \<times> (exn + response)) list \<Rightarrow> net" where
  "scripted_net script req =
     (case map_of script (req_url req) of
        None \<Rightarrow> Inl (Exn ''TypeError'' ''fetch failed'')
      | Some r \<Rightarrow> r)"

text \<open>A response with a text body that is not JSON.\<close>

definition text_response :: "nat \<Rightarrow> string option \<Rightarrow> string \<Rightarrow> response" where
  "text_response st sc body =
     \<lparr>status = st, statusText = [], set_cookie = sc, text_body = Inr body,
      json_body = Inl (Exn ''SyntaxError'' ''Unexpected token'')\<rparr>"

text \<open>A response with a JSON body.\<close>

definition json_response :: "nat \<Rightarrow> string \<Rightarrow> jsval \<Rightarrow> response" where
  "json_response st body v =
     \<lparr>status = st, statusText = [], set_cookie = None, text_body = Inr body, json_body = Inr v\<rparr>"

text \<open>The cache right after a handshake at time 0 that gave cookie \<open>A=1; B=2\<close>.\<close>

definition warm_cache :: cache where
  "warm_cache =
     \<lparr>cachedCrumb = Some ''AbCdEf123'', cachedCookie = Some ''A=1; B=2'', cacheExpiry = 1800000\<rparr>"

text \<open>The cookie endpoint sets two cookies; the crumb endpoint answers 200 with \<open>body\<close>.\<close>

definition crumb_body_net :: "string \<Rightarrow> net" where
  "crumb_body_net body =
     scripted_net
       [(''https://fc.yahoo.com'',
           Inr (text_response 404 (Some ''A=1; Path=/, B=2; Secure'') [])),
        (''https://query1.finance.yahoo.com/v1/test/getcrumb'',
           Inr (text_response 200 None body))]"

definition handshake_net :: net where
  "handshake_net = crumb_body_net ''AbCdEf123''"

text \<open>The same for the second implementation, which asks the home page and \<^verbatim>\<open>query2\<close>.\<close>

definition handshake_net_alt :: net where
  "handshake_net_alt =
     scripted_net
       [(''https://finance.yahoo.com'',
           Inr (text_response 200 (Some ''A=1; Path=/, B=2; Secure'') [])),
        (''https://query2.finance.yahoo.com/v1/test/getcrumb'',
           Inr (text_response 200 None ''AbCdEf123''))]"

text \<open>The cookies a response yields through its \<^verbatim>\<open>Set-Cookie\<close> header.\<close>

definition header_cookies :: "response \<Rightarrow> string list" where
  "header_cookies r = (case set_cookie r of None \<Rightarrow> [] | Some h \<Rightarrow> cookie_pairs h)"

text \<open>Neither endpoint sets a cookie.\<close>

definition no_cookie_net :: net where
  "no_cookie_net =
     scripted_net
       [(''https://fc.yahoo.com'', Inr (text_response 404 None [])),
        (''https://finance.yahoo.com'', Inr (text_response 200 None []))]"

text \<open>The crumb endpoint answers a valid cookie with a rate-limit message, status 429.\<close>

definition rate_limited_net :: net where
  "rate_limited_net =
     scripted_net
       [(''https://fc.yahoo.com'',
           Inr (text_response 404 (Some ''A=1; Path=/, B=2; Secure'') [])),
        (''https://finance.yahoo.com'',
           Inr (text_response 200 (Some ''A=1; Path=/, B=2; Secure'') [])),
        (''https://query1.finance.yahoo.com/v1/test/getcrumb'',
           Inr (text_response 429 None ''Too Many Requests'')),
        (''https://query2.finance.yahoo.com/v1/test/getcrumb'',
           Inr (text_response 429 None ''Too Many Requests''))]"

text \<open>The crumb endpoint answers with an HTML page, status 200.\<close>

definition html_page_net :: net where
  "html_page_net =
     scripted_net
       [(''https://fc.yahoo.com'',
           Inr (text_response 404 (Some ''A=1; Path=/, B=2; Secure'') [])),
        (''https://finance.yahoo.com'',
           Inr (text_response 200 (Some ''A=1; Path=/, B=2; Secure'') [])),
        (''https://query1.finance.yahoo.com/v1/test/getcrumb'',
           Inr (text_response 200 None ''<html>Sorry</html>'')),
        (''https://query2.finance.yahoo.com/v1/test/getcrumb'',
           Inr (text_response 200 None ''<html>Sorry</html>''))]"

text \<open>A cache holding the cookie \<open>a=1; b=2\<close> and the crumb \<open>c&d\<close>.\<close>

definition amp_cache :: cache where
  "amp_cache = \<lparr>cachedCrumb = Some ''c&d'', cachedCookie = Some ''a=1; b=2'', cacheExpiry = 1800000\<rparr>"









section \<open>Reference descriptions and sample data for the shaping\<close>

text \<open>The record a dividend maps to: the amount, and no split.\<close>

definition dividend_record :: "dividend_event \<Rightarrow> action" where
  "dividend_record d =
     \<lparr>Date = ISO (div_date d * 1000), Dividends = Num (div_amount d), Stock_Splits = Num 0\<rparr>"

text \<open>The record a split maps to: no dividend, and the ratio.\<close>

definition split_record :: "split_event \<Rightarrow> action" where
  "split_record sp =
     \<lparr>Date = ISO (split_date sp * 1000), Dividends = Num 0,
      Stock_Splits = js_divide (numerator sp) (denominator sp)\<rparr>"

text \<open>An admitted entry with its grade date added.\<close>

definition graded_of :: "'a grade \<Rightarrow> 'a graded" where
  "graded_of i = \<lparr>item = i, gradeDate = Some (ISO (epoch_or_0 i * 1000))\<rparr>"

text \<open>Firm A at 300 and 200, firm B at 100, in the order upstream happens to list them.\<close>

definition example_history :: "unit grade list" where
  "example_history =
     [\<lparr>firm = ''B'', epochGradeDate = Some 100, other_fields = ()\<rparr>,
      \<lparr>firm = ''A'', epochGradeDate = Some 200, other_fields = ()\<rparr>,
      \<lparr>firm = ''A'', epochGradeDate = Some 300, other_fields = ()\<rparr>]"

text \<open>An object that has the key \<open>raw\<close>, and one that has the key \<open>fmt\<close>.\<close>

definition raw_wrapper :: "jsval \<Rightarrow> bool" where
  "raw_wrapper v = (\<exists>kvs. v = JObj kvs \<and> ''raw'' \<in> fst ` set kvs)"

definition fmt_wrapper :: "jsval \<Rightarrow> bool" where
  "fmt_wrapper v = (\<exists>kvs. v = JObj kvs \<and> ''fmt'' \<in> fst ` set kvs)"

text \<open>A statement that is already flat; the \<open>raw\<close> inside the array is not a field value.\<close>

definition flat_statement :: "(string \<times> jsval) list" where
  "flat_statement =
     [(''maxAge'', JNum 1), (''date'', JStr ''2023-12-31''), (''totalRevenue'', JNum 1000),
      (''netIncome'', JNull), (''notes'', JArr [JObj [(''raw'', JNum 5)]])]"

text \<open>
  The properties of the modules that are merged (objects and arrays), in iteration order,
  module after module.
\<close>

definition merged_entries :: "(string \<times> jsval) list \<Rightarrow> (string \<times> jsval) list" where
  "merged_entries result =
     concat (map (\<lambda>(m, v). own_entries v) (filter (\<lambda>(m, v). mergeable v) result))"

text \<open>Two modules define \<open>currency\<close>; a string and \<^verbatim>\<open>null\<close> stand between and after.\<close>

definition example_modules :: "(string \<times> jsval) list" where
  "example_modules =
     [(''summaryDetail'', JObj [(''maxAge'', JNum 1), (''currency'', JStr ''USD'')]),
      (''note'', JStr ''n/a''),
      (''price'', JObj [(''currency'', JStr ''EUR''), (''symbol'', JStr ''SAP'')]),
      (''calendarEvents'', JNull)]"

section \<open>Properties of the credential cache\<close>

lemmas cookie_eval =
  cookies_of_def cookies_of_home_def cookie_pairs_def first_field_def trim_def is_ws_def

lemmas net_eval =
  scripted_net_def text_response_def json_response_def fc_request_def finance_request_def
  crumb_request_def plain_request_def authenticated_request_def BASE_URL_def BASE_URL_V2_def
  ok_def HEADERS_def

lemmas encode_eval =
  encodeURIComponent_def encode_unit_def uri_unreserved_def percent_byte_def hex_digit_def

lemma cache_hit_SomeD:
  "cache_hit now s = Some a \<Longrightarrow>
     cachedCrumb s = Some (crumb a) \<and> crumb a \<noteq> [] \<and> cachedCookie s = Some (cookie a) \<and>
     cookie a \<noteq> [] \<and> now < cacheExpiry s"
  by (auto simp: cache_hit_def split: option.splits if_splits)

lemma cache_hit_SomeI:
  "cachedCrumb s = Some r \<Longrightarrow> r \<noteq> [] \<Longrightarrow> cachedCookie s = Some c \<Longrightarrow> c \<noteq> [] \<Longrightarrow>
     now < cacheExpiry s \<Longrightarrow> cache_hit now s = Some \<lparr>crumb = r, cookie = c\<rparr>"
  by (simp add: cache_hit_def)

lemma getCrumb_hit:
  "cache_hit now s = Some a \<Longrightarrow> getCrumb net now s = (Returned (Some a), s, [])"
  by (simp add: getCrumb_def)

lemma getCookieAndCrumb_hit:
  "cache_hit now s = Some a \<Longrightarrow> getCookieAndCrumb net now s = (Returned a, s, [])"
  by (simp add: getCookieAndCrumb_def)

lemma getCrumb_crumb_success:
  "getCrumb_crumb net now s cookies = (Inr (Some a), s', tr) \<Longrightarrow>
     cookies \<noteq> [] \<and> crumb a \<noteq> [] \<and> cookie a = cookies \<and>
     s' = \<lparr>cachedCrumb = Some (crumb a), cachedCookie = Some (cookie a),
           cacheExpiry = now + THIRTY_MINUTES\<rparr>"
  by (auto simp: getCrumb_crumb_def Let_def split: if_splits sum.splits)

lemma getCrumb_miss_success:
  assumes "cache_hit now s = None" "getCrumb net now s = (Returned (Some a), s', tr)"
  shows "crumb a \<noteq> [] \<and> cookie a \<noteq> [] \<and>
     s' = \<lparr>cachedCrumb = Some (crumb a), cachedCookie = Some (cookie a),
           cacheExpiry = now + THIRTY_MINUTES\<rparr>"
  using assms
  by (auto simp: getCrumb_def getCrumb_try_def split: sum.splits prod.splits
           dest!: getCrumb_crumb_success)

lemma getCookieAndCrumb_miss_success:
  assumes "cache_hit now s = None" "getCookieAndCrumb net now s = (Returned a, s', tr)"
  shows "crumb a \<noteq> [] \<and> cookie a \<noteq> [] \<and>
     s' = \<lparr>cachedCrumb = Some (crumb a), cachedCookie = Some (cookie a),
           cacheExpiry = now + THIRTY_MINUTES\<rparr>"
  using assms
  by (auto simp: getCookieAndCrumb_def Let_def split: sum.splits if_splits)

text \<open>After a call that returned credentials the cache holds exactly them, unexpired.\<close>

lemma getCrumb_success_cache:
  assumes "getCrumb net now s = (Returned (Some a), s', tr)"
  shows "cache_hit now s' = Some a"
proof (cases "cache_hit now s")
  case None
  from getCrumb_miss_success[OF None assms] show ?thesis
    by (auto simp: cache_hit_def THIRTY_MINUTES_def)
next
  case (Some b)
  with assms show ?thesis by (simp add: getCrumb_def)
qed

lemma getCookieAndCrumb_success_cache:
  assumes "getCookieAndCrumb net now s = (Returned a, s', tr)"
  shows "cache_hit now s' = Some a"
proof (cases "cache_hit now s")
  case None
  from getCookieAndCrumb_miss_success[OF None assms] show ?thesis
    by (auto simp: cache_hit_def THIRTY_MINUTES_def)
next
  case (Some b)
  with assms show ?thesis by (simp add: getCookieAndCrumb_def)
qed

text \<open>The handshake of the concrete environments, evaluated.\<close>

lemma handshake_run:
  "getCrumb handshake_net 0 initial_cache =
     (Returned (Some \<lparr>crumb = ''AbCdEf123'', cookie = ''A=1; B=2''\<rparr>), warm_cache,
      [fc_request, crumb_request BASE_URL ''A=1; B=2''])"
  by (simp add: getCrumb_def getCrumb_try_def getCrumb_cookies_def getCrumb_crumb_def
        cache_hit_def initial_cache_def warm_cache_def handshake_net_def crumb_body_net_def
        THIRTY_MINUTES_def
        net_eval cookie_eval Let_def)

lemma handshake_run_alt:
  "getCookieAndCrumb handshake_net_alt 0 initial_cache =
     (Returned \<lparr>crumb = ''AbCdEf123'', cookie = ''A=1; B=2''\<rparr>, warm_cache,
      [finance_request, crumb_request BASE_URL_V2 ''A=1; B=2''])"
  by (simp add: getCookieAndCrumb_def cache_hit_def initial_cache_def warm_cache_def
        handshake_net_alt_def THIRTY_MINUTES_def net_eval cookie_eval Let_def)

text \<open>
  Claim C1 (cache freshness). While the cache holds a cookie and a crumb and the clock is
  strictly before the cached expiry, a call of either acquisition routine issues no
  request, leaves the cache as it is and returns the cached pair; and that pair is the one
  any earlier call returned when it left the cache in this state.
\<close>

theorem cache_freshness:
  assumes "cachedCrumb s = Some r" and "r \<noteq> []"
      and "cachedCookie s = Some c" and "c \<noteq> []"
      and "now < cacheExpiry s"
  shows "getCrumb net now s = (Returned (Some \<lparr>crumb = r, cookie = c\<rparr>), s, [])
       \<and> getCookieAndCrumb net now s = (Returned \<lparr>crumb = r, cookie = c\<rparr>, s, [])
       \<and> (\<forall>net0 now0 s0 tr0 a.
             getCrumb net0 now0 s0 = (Returned (Some a), s, tr0) \<longrightarrow>
             a = \<lparr>crumb = r, cookie = c\<rparr>)
       \<and> (\<forall>net0 now0 s0 tr0 a.
             getCookieAndCrumb net0 now0 s0 = (Returned a, s, tr0) \<longrightarrow>
             a = \<lparr>crumb = r, cookie = c\<rparr>)"
proof -
  have hit: "cache_hit now s = Some \<lparr>crumb = r, cookie = c\<rparr>"
    using assms by (rule cache_hit_SomeI)
  have same: "a = \<lparr>crumb = r, cookie = c\<rparr>" if "cache_hit now0 s = Some a" for now0 a
    using that assms(1,3) by (auto dest!: cache_hit_SomeD)
  have a: "getCrumb net now s = (Returned (Some \<lparr>crumb = r, cookie = c\<rparr>), s, [])"
    using hit by (rule getCrumb_hit)
  have b: "getCookieAndCrumb net now s = (Returned \<lparr>crumb = r, cookie = c\<rparr>, s, [])"
    using hit by (rule getCookieAndCrumb_hit)
  have c: "a = \<lparr>crumb = r, cookie = c\<rparr>"
    if "getCrumb net0 now0 s0 = (Returned (Some a), s, tr0)" for net0 now0 s0 tr0 a
    using getCrumb_success_cache[OF that] by (rule same)
  have d: "a = \<lparr>crumb = r, cookie = c\<rparr>"
    if "getCookieAndCrumb net0 now0 s0 = (Returned a, s, tr0)" for net0 now0 s0 tr0 a
    using getCookieAndCrumb_success_cache[OF that] by (rule same)
  from a b c d show ?thesis by blast
qed

text \<open>
  A first call at time 0 performs the handshake; a second call 29 minutes later, on a
  network that rejects everything, returns the same pair without a request.
\<close>

theorem cache_freshness_witness:
  "getCrumb handshake_net 0 initial_cache =
     (Returned (Some \<lparr>crumb = ''AbCdEf123'', cookie = ''A=1; B=2''\<rparr>), warm_cache,
      [fc_request, crumb_request BASE_URL ''A=1; B=2''])
   \<and> getCrumb (scripted_net []) 1740000 warm_cache =
     (Returned (Some \<lparr>crumb = ''AbCdEf123'', cookie = ''A=1; B=2''\<rparr>), warm_cache, [])
   \<and> getCookieAndCrumb (scripted_net []) 1740000 warm_cache =
     (Returned \<lparr>crumb = ''AbCdEf123'', cookie = ''A=1; B=2''\<rparr>, warm_cache, [])"
proof -
  have "cachedCrumb warm_cache = Some ''AbCdEf123''" "''AbCdEf123'' \<noteq> []"
       "cachedCookie warm_cache = Some ''A=1; B=2''" "''A=1; B=2'' \<noteq> []"
       "1740000 < cacheExpiry warm_cache"
    by (simp_all add: warm_cache_def)
  note second = cache_freshness[OF this, of "scripted_net []"]
  show ?thesis
    by (rule conjI[OF handshake_run conjI[OF second[THEN conjunct1]
                                            second[THEN conjunct2, THEN conjunct1]]])
qed

text \<open>
  Claim C5 (never expired). Whenever an acquisition routine returns credentials, the
  expiry stored in the cache is strictly after the clock value the call read, and the cache
  holds the returned pair; after a fresh handshake the expiry is that clock value plus
  30 minutes. (The clock is read once, on entry, as in the source.)
\<close>

theorem never_expired:
  "(getCrumb net now s = (Returned (Some a), s', tr) \<longrightarrow>
      now < cacheExpiry s' \<and> cachedCrumb s' = Some (crumb a) \<and> cachedCookie s' = Some (cookie a) \<and>
      (cache_hit now s = None \<longrightarrow> cacheExpiry s' = now + 30 * 60 * 1000))
   \<and> (getCookieAndCrumb net now s = (Returned a, s', tr) \<longrightarrow>
      now < cacheExpiry s' \<and> cachedCrumb s' = Some (crumb a) \<and> cachedCookie s' = Some (cookie a) \<and>
      (cache_hit now s = None \<longrightarrow> cacheExpiry s' = now + 30 * 60 * 1000))"
proof (intro conjI impI)
  assume r: "getCrumb net now s = (Returned (Some a), s', tr)"
  from getCrumb_success_cache[OF r]
  show "now < cacheExpiry s'" "cachedCrumb s' = Some (crumb a)" "cachedCookie s' = Some (cookie a)"
    by (auto dest!: cache_hit_SomeD)
  assume "cache_hit now s = None"
  from getCrumb_miss_success[OF this r] show "cacheExpiry s' = now + 30 * 60 * 1000"
    by (simp add: THIRTY_MINUTES_def)
next
  assume r: "getCookieAndCrumb net now s = (Returned a, s', tr)"
  from getCookieAndCrumb_success_cache[OF r]
  show "now < cacheExpiry s'" "cachedCrumb s' = Some (crumb a)" "cachedCookie s' = Some (cookie a)"
    by (auto dest!: cache_hit_SomeD)
  assume "cache_hit now s = None"
  from getCookieAndCrumb_miss_success[OF this r] show "cacheExpiry s' = now + 30 * 60 * 1000"
    by (simp add: THIRTY_MINUTES_def)
qed

theorem never_expired_witness:
  "getCrumb handshake_net 0 initial_cache =
     (Returned (Some \<lparr>crumb = ''AbCdEf123'', cookie = ''A=1; B=2''\<rparr>), warm_cache,
      [fc_request, crumb_request BASE_URL ''A=1; B=2''])
   \<and> cache_hit 0 initial_cache = None
   \<and> 0 < cacheExpiry warm_cache \<and> cacheExpiry warm_cache = 0 + 30 * 60 * 1000
   \<and> getCookieAndCrumb handshake_net_alt 0 initial_cache =
     (Returned \<lparr>crumb = ''AbCdEf123'', cookie = ''A=1; B=2''\<rparr>, warm_cache,
      [finance_request, crumb_request BASE_URL_V2 ''A=1; B=2''])"
proof -
  have miss: "cache_hit 0 initial_cache = None"
    by (simp add: cache_hit_def initial_cache_def)
  from never_expired[of handshake_net 0 initial_cache _ warm_cache] handshake_run miss
  have "0 < cacheExpiry warm_cache \<and> cacheExpiry warm_cache = 0 + 30 * 60 * 1000"
    by blast
  with handshake_run handshake_run_alt miss show ?thesis by blast
qed


section \<open>Properties of the handshake\<close>

lemma str_includes_sublist: "str_includes s t = sublist t s"
  by (induction s) (auto simp: sublist_Cons_right)

lemma str_includes_char: "str_includes s [c] = (c \<in> set s)"
  by (induction s) auto

lemma join_eq_Nil: "\<forall>x\<in>set xs. x \<noteq> [] \<Longrightarrow> (join sep xs = []) = (xs = [])"
  by (induction sep xs rule: join.induct) auto

lemma cookie_pairs_Nil: "cookie_pairs [] = []"
  by (simp add: cookie_eval)

lemma cookies_of_empty: "(cookies_of r = []) = (header_cookies r = [])"
proof (cases "set_cookie r")
  case None
  then show ?thesis by (simp add: cookies_of_def header_cookies_def)
next
  case (Some h)
  have "\<forall>x\<in>set (cookie_pairs h). x \<noteq> []"
    by (simp add: cookie_pairs_def)
  from join_eq_Nil[OF this] Some show ?thesis
    by (simp add: cookies_of_def header_cookies_def cookie_pairs_Nil)
qed

text \<open>\<^verbatim>\<open>getCrumb\<close> never throws: its \<^verbatim>\<open>catch\<close> covers the whole handshake.\<close>

lemma getCrumb_returns: "\<exists>r. fst (getCrumb net now s) = Returned r"
  by (auto simp: getCrumb_def split: option.splits sum.splits prod.splits)

text \<open>
  The crumb check of \<^verbatim>\<open>getCrumb\<close>: once step 1 has produced a cookie string and the crumb
  endpoint has answered with a readable body, the call fails with \<^verbatim>\<open>null\<close> and writes
  nothing to the cache exactly when the status is not successful or the body is empty,
  contains \<open><\<close> or contains \<open>error\<close>; otherwise it returns and caches the body verbatim.
\<close>

lemma getCrumb_crumb_validation:
  assumes "cache_hit now s = None"
      and "getCrumb_cookies net = (Inr cookies, tr)" and "cookies \<noteq> []"
      and "net (crumb_request BASE_URL cookies) = Inr cr"
      and "text_body cr = Inr body"
  shows "getCrumb net now s =
     (if \<not> ok cr \<or> body = [] \<or> CHR ''<'' \<in> set body \<or> sublist ''error'' body
      then (Returned None, s, tr @ [crumb_request BASE_URL cookies])
      else (Returned (Some \<lparr>crumb = body, cookie = cookies\<rparr>),
            \<lparr>cachedCrumb = Some body, cachedCookie = Some cookies,
             cacheExpiry = now + 30 * 60 * 1000\<rparr>,
            tr @ [crumb_request BASE_URL cookies]))"
  using assms
  by (simp add: getCrumb_def getCrumb_try_def getCrumb_crumb_def Let_def THIRTY_MINUTES_def
        str_includes_sublist str_includes_char[symmetric])

lemma getCrumb_rejects_rate_limit:
  "getCrumb rate_limited_net 0 initial_cache =
     (Returned None, initial_cache, [fc_request, crumb_request BASE_URL ''A=1; B=2''])"
  by (simp add: getCrumb_def getCrumb_try_def getCrumb_cookies_def getCrumb_crumb_def
        cache_hit_def initial_cache_def rate_limited_net_def net_eval cookie_eval Let_def)

lemma getCrumb_rejects_html:
  "getCrumb html_page_net 0 initial_cache =
     (Returned None, initial_cache, [fc_request, crumb_request BASE_URL ''A=1; B=2''])"
  by (simp add: getCrumb_def getCrumb_try_def getCrumb_cookies_def getCrumb_crumb_def
        cache_hit_def initial_cache_def html_page_net_def net_eval cookie_eval Let_def)

text \<open>The bodies of the specification's examples that must be refused.\<close>

lemma getCrumb_rejects_examples:
  "body \<in> {[], ''<html>error</html>'', ''some error occurred''} \<Longrightarrow>
     getCrumb (crumb_body_net body) 0 initial_cache =
       (Returned None, initial_cache, [fc_request, crumb_request BASE_URL ''A=1; B=2''])"
  by (auto simp: getCrumb_def getCrumb_try_def getCrumb_cookies_def getCrumb_crumb_def
        cache_hit_def initial_cache_def crumb_body_net_def net_eval cookie_eval Let_def)

text \<open>
  The crumb check of \<^verbatim>\<open>getCookieAndCrumb\<close>: the call throws exactly when the body is empty
  or contains \<open>error\<close>; the status and \<open><\<close> play no part.
\<close>

lemma getCookieAndCrumb_crumb_validation:
  assumes "cache_hit now s = None"
      and "net finance_request = Inr home" and "cookies_of_home home = cookies"
      and "cookies \<noteq> []"
      and "net (crumb_request BASE_URL_V2 cookies) = Inr cr"
      and "text_body cr = Inr body"
  shows "getCookieAndCrumb net now s =
     (if body = [] \<or> sublist ''error'' body
      then (Thrown (Exn ''Error'' ''Failed to get Yahoo crumb''), s,
            [finance_request, crumb_request BASE_URL_V2 cookies])
      else (Returned \<lparr>crumb = body, cookie = cookies\<rparr>,
            \<lparr>cachedCrumb = Some body, cachedCookie = Some cookies,
             cacheExpiry = now + 30 * 60 * 1000\<rparr>,
            [finance_request, crumb_request BASE_URL_V2 cookies]))"
  using assms
  by (simp add: getCookieAndCrumb_def Let_def THIRTY_MINUTES_def str_includes_sublist)

text \<open>
  Claim C2 (crumb validation), where the second implementation departs from it. On a crumb
  response with status 429 and body \<open>Too Many Requests\<close>, and on one with status 200 and an
  HTML body, \<^verbatim>\<open>getCookieAndCrumb\<close> succeeds and caches the body as the crumb for 30 minutes:
  it tests neither the status nor \<open><\<close>. (\<^verbatim>\<open>getCrumb\<close> rejects both, see above.)
\<close>

theorem getCookieAndCrumb_caches_error_body:
  "getCookieAndCrumb rate_limited_net 0 initial_cache =
     (Returned \<lparr>crumb = ''Too Many Requests'', cookie = ''A=1; B=2''\<rparr>,
      \<lparr>cachedCrumb = Some ''Too Many Requests'', cachedCookie = Some ''A=1; B=2'',
       cacheExpiry = 1800000\<rparr>,
      [finance_request, crumb_request BASE_URL_V2 ''A=1; B=2''])
   \<and> getCookieAndCrumb html_page_net 0 initial_cache =
     (Returned \<lparr>crumb = ''<html>Sorry</html>'', cookie = ''A=1; B=2''\<rparr>,
      \<lparr>cachedCrumb = Some ''<html>Sorry</html>'', cachedCookie = Some ''A=1; B=2'',
       cacheExpiry = 1800000\<rparr>,
      [finance_request, crumb_request BASE_URL_V2 ''A=1; B=2''])"
  by (simp add: getCookieAndCrumb_def cache_hit_def initial_cache_def rate_limited_net_def
        html_page_net_def THIRTY_MINUTES_def net_eval cookie_eval Let_def)

text \<open>
  Claim C3 (no cookie), as the code has it. \<^verbatim>\<open>getCrumb\<close> never throws, and when neither the
  cookie-issuing endpoint nor the main page yields a cookie it returns \<^verbatim>\<open>null\<close> and leaves
  the cache alone. \<^verbatim>\<open>getCookieAndCrumb\<close>, which asks the main page only, throws
  \<^verbatim>\<open>Error("Failed to get Yahoo cookie")\<close> when the response has no \<^verbatim>\<open>Set-Cookie\<close> header
  or an empty one.
\<close>

theorem no_cookie_signalling:
  "(\<exists>r. fst (getCrumb net now s) = Returned r)
   \<and> (cache_hit now s = None \<and>
        net fc_request = Inr r1 \<and> header_cookies r1 = [] \<and>
        net finance_request = Inr r2 \<and> header_cookies r2 = [] \<longrightarrow>
        getCrumb net now s = (Returned None, s, [fc_request, finance_request]))
   \<and> (cache_hit now s = None \<and>
        net finance_request = Inr r2 \<and> (set_cookie r2 = None \<or> set_cookie r2 = Some []) \<longrightarrow>
        getCookieAndCrumb net now s =
          (Thrown (Exn ''Error'' ''Failed to get Yahoo cookie''), s, [finance_request]))"
proof (intro conjI impI)
  show "\<exists>r. fst (getCrumb net now s) = Returned r"
    by (rule getCrumb_returns)
next
  assume h: "cache_hit now s = None \<and> net fc_request = Inr r1 \<and> header_cookies r1 = [] \<and>
             net finance_request = Inr r2 \<and> header_cookies r2 = []"
  then have "cookies_of r1 = []" "cookies_of r2 = []"
    by (simp_all add: cookies_of_empty)
  with h show "getCrumb net now s = (Returned None, s, [fc_request, finance_request])"
    by (simp add: getCrumb_def getCrumb_try_def getCrumb_cookies_def getCrumb_crumb_def)
next
  assume h: "cache_hit now s = None \<and> net finance_request = Inr r2 \<and>
             (set_cookie r2 = None \<or> set_cookie r2 = Some [])"
  then have "cookies_of_home r2 = []"
    by (auto simp: cookie_eval)
  with h show "getCookieAndCrumb net now s =
                 (Thrown (Exn ''Error'' ''Failed to get Yahoo cookie''), s, [finance_request])"
    by (simp add: getCookieAndCrumb_def)
qed

theorem no_cookie_signalling_witness:
  "cache_hit 0 initial_cache = None
   \<and> no_cookie_net fc_request = Inr (text_response 404 None [])
   \<and> header_cookies (text_response 404 None []) = []
   \<and> no_cookie_net finance_request = Inr (text_response 200 None [])
   \<and> header_cookies (text_response 200 None []) = []
   \<and> set_cookie (text_response 200 None []) = None
   \<and> getCrumb no_cookie_net 0 initial_cache =
       (Returned None, initial_cache, [fc_request, finance_request])"
proof -
  have h: "cache_hit 0 initial_cache = None \<and>
           no_cookie_net fc_request = Inr (text_response 404 None []) \<and>
           header_cookies (text_response 404 None []) = [] \<and>
           no_cookie_net finance_request = Inr (text_response 200 None []) \<and>
           header_cookies (text_response 200 None []) = []"
    by (simp add: cache_hit_def initial_cache_def no_cookie_net_def scripted_net_def
          fc_request_def finance_request_def header_cookies_def text_response_def)
  have n: "set_cookie (text_response 200 None []) = None"
    by (simp add: text_response_def)
  from no_cookie_signalling[of no_cookie_net 0 initial_cache
         "text_response 404 None []" "text_response 200 None []"] h
  have "getCrumb no_cookie_net 0 initial_cache =
          (Returned None, initial_cache, [fc_request, finance_request])"
    by blast
  with h n show ?thesis by blast
qed

text \<open>The second implementation on the same network: the call ends in an exception.\<close>

theorem getCookieAndCrumb_throws_without_cookie:
  "getCookieAndCrumb no_cookie_net 0 initial_cache =
     (Thrown (Exn ''Error'' ''Failed to get Yahoo cookie''), initial_cache, [finance_request])"
  by (simp add: getCookieAndCrumb_def cache_hit_def initial_cache_def no_cookie_net_def
        net_eval cookie_eval Let_def)

section \<open>Properties of the authenticated fetcher\<close>

lemma assign_cookie_HEADERS: "assign_prop ''Cookie'' c HEADERS = HEADERS @ [(''Cookie'', c)]"
  by (simp add: HEADERS_def)

lemma authenticated_request_eq:
  "authenticated_request u a =
     \<lparr>req_url = u @ (if CHR ''?'' \<in> set u then ''&'' else ''?'') @ ''crumb='' @
                  encodeURIComponent (crumb a),
      req_headers = HEADERS @ [(''Cookie'', cookie a)],
      req_redirect = Follow\<rparr>"
  by (simp add: authenticated_request_def assign_cookie_HEADERS str_includes_char)

lemma fetchYahoo_trace:
  "getCrumb net now s = (Returned (Some a), s', tr) \<Longrightarrow>
     \<exists>out. fetchYahoo net now s u True = (out, s', tr @ [authenticated_request u a])"
  by (auto simp: fetchYahoo_def Let_def split: sum.splits)

lemma fetchYahoo_alt_trace:
  "getCookieAndCrumb net now s = (Returned a, s', tr) \<Longrightarrow>
     \<exists>out. fetchYahoo_alt net now s u True = (out, s', tr @ [authenticated_request u a])"
  by (auto simp: fetchYahoo_alt_def Let_def split: sum.splits)

text \<open>
  Claim C4 (authenticated URL). When the acquisition succeeds with cookie \<open>c\<close> and crumb
  \<open>r\<close>, the request \<^verbatim>\<open>fetchYahoo(url, true)\<close> issues after the handshake goes to \<open>url\<close>
  followed by \<open>&crumb=\<close> (if \<open>url\<close> contains \<open>?\<close>) or \<open>?crumb=\<close> (otherwise) and the encoded
  crumb, and carries the fixed headers and \<open>Cookie: c\<close>; the crumb \<open>c&d\<close> is encoded as
  \<open>c%26d\<close>. This holds in both implementations.
\<close>

theorem authenticated_url:
  "(getCrumb net now s = (Returned (Some a), s', tr) \<longrightarrow>
      (\<exists>out. fetchYahoo net now s u True =
         (out, s',
          tr @ [\<lparr>req_url = u @ (if CHR ''?'' \<in> set u then ''&'' else ''?'') @ ''crumb='' @
                            encodeURIComponent (crumb a),
                 req_headers = HEADERS @ [(''Cookie'', cookie a)],
                 req_redirect = Follow\<rparr>])))
   \<and> (getCookieAndCrumb net now s = (Returned a, s', tr) \<longrightarrow>
      (\<exists>out. fetchYahoo_alt net now s u True =
         (out, s',
          tr @ [\<lparr>req_url = u @ (if CHR ''?'' \<in> set u then ''&'' else ''?'') @ ''crumb='' @
                            encodeURIComponent (crumb a),
                 req_headers = HEADERS @ [(''Cookie'', cookie a)],
                 req_redirect = Follow\<rparr>])))
   \<and> encodeURIComponent ''c&d'' = ''c%26d''"
proof (intro conjI impI)
  assume "getCrumb net now s = (Returned (Some a), s', tr)"
  from fetchYahoo_trace[OF this, of u]
  show "\<exists>out. fetchYahoo net now s u True =
         (out, s',
          tr @ [\<lparr>req_url = u @ (if CHR ''?'' \<in> set u then ''&'' else ''?'') @ ''crumb='' @
                            encodeURIComponent (crumb a),
                 req_headers = HEADERS @ [(''Cookie'', cookie a)],
                 req_redirect = Follow\<rparr>])"
    by (simp only: authenticated_request_eq)
next
  assume "getCookieAndCrumb net now s = (Returned a, s', tr)"
  from fetchYahoo_alt_trace[OF this, of u]
  show "\<exists>out. fetchYahoo_alt net now s u True =
         (out, s',
          tr @ [\<lparr>req_url = u @ (if CHR ''?'' \<in> set u then ''&'' else ''?'') @ ''crumb='' @
                            encodeURIComponent (crumb a),
                 req_headers = HEADERS @ [(''Cookie'', cookie a)],
                 req_redirect = Follow\<rparr>])"
    by (simp only: authenticated_request_eq)
next
  show "encodeURIComponent ''c&d'' = ''c%26d''"
    by (simp add: encode_eval)
qed

lemma amp_cache_hit:
  "getCrumb (scripted_net []) 5 amp_cache =
     (Returned (Some \<lparr>crumb = ''c&d'', cookie = ''a=1; b=2''\<rparr>), amp_cache, [])"
  by (simp add: getCrumb_def cache_hit_def amp_cache_def)

lemma amp_cache_hit_alt:
  "getCookieAndCrumb (scripted_net []) 5 amp_cache =
     (Returned \<lparr>crumb = ''c&d'', cookie = ''a=1; b=2''\<rparr>, amp_cache, [])"
  by (simp add: getCookieAndCrumb_def cache_hit_def amp_cache_def)

text \<open>The two URLs of the specification's example, in both implementations.\<close>

theorem authenticated_url_witness:
  "(\<exists>out. fetchYahoo (scripted_net []) 5 amp_cache ''https://x/y'' True =
       (out, amp_cache,
        [\<lparr>req_url = ''https://x/y?crumb=c%26d'',
          req_headers = HEADERS @ [(''Cookie'', ''a=1; b=2'')], req_redirect = Follow\<rparr>]))
   \<and> (\<exists>out. fetchYahoo_alt (scripted_net []) 5 amp_cache ''https://x/y?z=1'' True =
       (out, amp_cache,
        [\<lparr>req_url = ''https://x/y?z=1&crumb=c%26d'',
          req_headers = HEADERS @ [(''Cookie'', ''a=1; b=2'')], req_redirect = Follow\<rparr>]))"
proof -
  note t = authenticated_url[of "scripted_net []" 5 amp_cache
             "\<lparr>crumb = ''c&d'', cookie = ''a=1; b=2''\<rparr>" amp_cache "[]"]
  have enc: "encodeURIComponent ''c&d'' = ''c%26d''"
    by (rule t[of "[]", THEN conjunct2, THEN conjunct2])
  from t[of "''https://x/y''", THEN conjunct1, rule_format, OF amp_cache_hit]
  have 1: "\<exists>out. fetchYahoo (scripted_net []) 5 amp_cache ''https://x/y'' True =
       (out, amp_cache,
        [\<lparr>req_url = ''https://x/y?crumb=c%26d'',
          req_headers = HEADERS @ [(''Cookie'', ''a=1; b=2'')], req_redirect = Follow\<rparr>])"
    by (simp add: enc)
  from t[of "''https://x/y?z=1''", THEN conjunct2, THEN conjunct1, rule_format, OF amp_cache_hit_alt]
  have 2: "\<exists>out. fetchYahoo_alt (scripted_net []) 5 amp_cache ''https://x/y?z=1'' True =
       (out, amp_cache,
        [\<lparr>req_url = ''https://x/y?z=1&crumb=c%26d'',
          req_headers = HEADERS @ [(''Cookie'', ''a=1; b=2'')], req_redirect = Follow\<rparr>])"
    by (simp add: enc)
  from 1 2 show ?thesis by (rule conjI)
qed

section \<open>Properties of the data shaping\<close>

lemma map_exn_all_Inr:
  "\<forall>x\<in>set xs. f x = Inr (g x) \<Longrightarrow> map_exn f xs = Inr (map g xs)"
  by (induction xs) auto

subsection \<open>Stock actions\<close>

lemma dividend_action_valid:
  "\<bar>div_date d * 1000\<bar> \<le> 8640000000000000 \<Longrightarrow> dividend_action d = Inr (dividend_record d)"
  by (simp add: dividend_action_def toISOString_def dividend_record_def)

lemma split_action_valid:
  "\<bar>split_date sp * 1000\<bar> \<le> 8640000000000000 \<Longrightarrow> split_action sp = Inr (split_record sp)"
  by (simp add: split_action_def toISOString_def split_record_def)

lemma stock_actions_example:
  "stock_actions [\<lparr>div_date = 100, div_amount = 1 / 2\<rparr>]
                 [\<lparr>split_date = 50, numerator = 2, denominator = 1\<rparr>] =
     Inr [\<lparr>Date = ISO 50000, Dividends = Num 0, Stock_Splits = Num 2\<rparr>,
          \<lparr>Date = ISO 100000, Dividends = Num (1 / 2), Stock_Splits = Num 0\<rparr>]"
  by (simp add: stock_actions_def dividend_action_def split_action_def toISOString_def
        js_divide_def)

text \<open>
  Claim C7 (action merge-and-sort). For dividend and split events whose dates are
  representable time values, \<^verbatim>\<open>getStockActions\<close> builds a list that consists of exactly one
  record \<open>{Date, Dividends: amount, Stock Splits: 0}\<close> per dividend and one record
  \<open>{Date, Dividends: 0, Stock Splits: numerator / denominator}\<close> per split, and that is
  sorted ascending by date. (A date outside the range makes \<^verbatim>\<open>toISOString\<close> throw.)
\<close>

theorem action_merge_and_sort:
  assumes "\<forall>d\<in>set dividends. \<bar>div_date d * 1000\<bar> \<le> 8640000000000000"
      and "\<forall>sp\<in>set splits. \<bar>split_date sp * 1000\<bar> \<le> 8640000000000000"
  shows "\<exists>out. stock_actions dividends splits = Inr out
           \<and> mset out = mset (map dividend_record dividends) + mset (map split_record splits)
           \<and> sorted (map (\<lambda>a. getTime (Date a)) out)"
proof -
  have d: "map_exn dividend_action dividends = Inr (map dividend_record dividends)"
    using assms(1) by (intro map_exn_all_Inr) (simp add: dividend_action_valid)
  have s: "map_exn split_action splits = Inr (map split_record splits)"
    using assms(2) by (intro map_exn_all_Inr) (simp add: split_action_valid)
  show ?thesis
    by (simp add: stock_actions_def d s)
qed

theorem action_merge_and_sort_witness:
  "\<exists>out. stock_actions [\<lparr>div_date = 100, div_amount = 1 / 2\<rparr>]
                         [\<lparr>split_date = 50, numerator = 2, denominator = 1\<rparr>] = Inr out
         \<and> mset out = mset (map dividend_record [\<lparr>div_date = 100, div_amount = 1 / 2\<rparr>])
                      + mset (map split_record [\<lparr>split_date = 50, numerator = 2, denominator = 1\<rparr>])
         \<and> sorted (map (\<lambda>a. getTime (Date a)) out)"
proof -
  have 1: "\<forall>d\<in>set [\<lparr>div_date = 100, div_amount = 1 / 2\<rparr>]. \<bar>div_date d * 1000\<bar> \<le> 8640000000000000"
    by simp
  have 2: "\<forall>sp\<in>set [\<lparr>split_date = 50, numerator = 2, denominator = 1\<rparr>].
             \<bar>split_date sp * 1000\<bar> \<le> 8640000000000000"
    by simp
  show ?thesis by (rule action_merge_and_sort[OF 1 2])
qed

subsection \<open>Recommendations\<close>

lemma uniqueByFirm_subset: "set (uniqueByFirm S xs) \<subseteq> set xs"
  by (induction xs arbitrary: S) auto

lemma uniqueByFirm_fresh: "i \<in> set (uniqueByFirm S xs) \<Longrightarrow> firm i \<notin> S"
  by (induction xs arbitrary: S) (auto split: if_splits)

lemma uniqueByFirm_distinct: "distinct (map firm (uniqueByFirm S xs))"
  by (induction xs arbitrary: S) (auto dest: uniqueByFirm_fresh)

lemma uniqueByFirm_sorted:
  "sorted (map f xs) \<Longrightarrow> sorted (map f (uniqueByFirm S xs))"
proof (induction xs arbitrary: S)
  case Nil
  then show ?case by simp
next
  case (Cons x xs)
  then show ?case using uniqueByFirm_subset by (fastforce)
qed

lemma uniqueByFirm_first:
  "sorted (map f xs) \<Longrightarrow> i \<in> set xs \<Longrightarrow> firm i \<notin> S \<Longrightarrow>
     \<exists>k\<in>set (uniqueByFirm S xs). firm k = firm i \<and> f k \<le> f i"
proof (induction xs arbitrary: S)
  case Nil
  then show ?case by simp
next
  case (Cons x xs)
  show ?case
  proof (cases "firm x \<in> S")
    case True
    with Cons.prems have "i \<in> set xs" by auto
    with Cons True show ?thesis by auto
  next
    case False
    show ?thesis
    proof (cases "firm i = firm x")
      case True
      with Cons.prems False show ?thesis by auto
    next
      case nf: False
      with Cons.prems have "i \<in> set xs" "firm i \<notin> insert (firm x) S" by auto
      with Cons.IH[of "insert (firm x) S"] Cons.prems(1) False show ?thesis by auto
    qed
  qed
qed

lemma with_gradeDate_admitted:
  assumes "admitted cutoffTs i" "epochGradeDate i = Some d" "\<bar>d * 1000\<bar> \<le> 8640000000000000"
  shows "with_gradeDate i = Inr \<lparr>item = i, gradeDate = Some (ISO (d * 1000))\<rparr>"
  using assms by (simp add: with_gradeDate_def admitted_def toISOString_def)

text \<open>
  Claim C8 (recommendation filter, sort, dedup), as the code has it. The entries returned
  for \<^verbatim>\<open>upgrades_downgrades\<close> are entries of the history whose \<^verbatim>\<open>epochGradeDate\<close> is present,
  not zero and at or after the cutoff; they are in descending order of that date; no firm
  occurs twice; and every such entry of the history is represented by an entry of its firm
  that is at least as recent. Each carries the ISO form of its date as \<^verbatim>\<open>gradeDate\<close>.
\<close>

theorem recommendation_filter_sort_dedup:
  assumes "\<forall>i\<in>set history. \<bar>epoch_or_0 i * 1000\<bar> \<le> 8640000000000000"
  shows "\<exists>kept. upgrades_downgrades cutoffTs history = Inr (map graded_of kept)
     \<and> set kept \<subseteq> {i \<in> set history. \<exists>d. epochGradeDate i = Some d \<and> d \<noteq> 0 \<and> cutoffTs \<le> d}
     \<and> sorted (rev (map epoch_or_0 kept))
     \<and> distinct (map firm kept)
     \<and> (\<forall>i\<in>set history. \<forall>d. epochGradeDate i = Some d \<and> d \<noteq> 0 \<and> cutoffTs \<le> d \<longrightarrow>
           (\<exists>k\<in>set kept. firm k = firm i \<and> d \<le> epoch_or_0 k))"
proof -
  let ?f = "filtered cutoffTs history"
  let ?kept = "uniqueByFirm {} ?f"
  have setf: "set ?f = {i \<in> set history. admitted cutoffTs i}"
    by (auto simp: filtered_def)
  have adm: "admitted cutoffTs i = (\<exists>d. epochGradeDate i = Some d \<and> d \<noteq> 0 \<and> cutoffTs \<le> d)" for i :: "'a grade"
    by (auto simp: admitted_def split: option.splits)
  have sub: "set ?kept \<subseteq> {i \<in> set history. admitted cutoffTs i}"
    using uniqueByFirm_subset[of "{}" ?f] setf by auto
  have sortedf: "sorted (map (\<lambda>i. - epoch_or_0 i) ?f)"
    by (simp add: filtered_def)
  have "\<forall>i\<in>set ?kept. with_gradeDate i = Inr (graded_of i)"
  proof
    fix i assume i: "i \<in> set ?kept"
    with sub have a: "admitted cutoffTs i" and h: "i \<in> set history" by auto
    then obtain d where d: "epochGradeDate i = Some d" by (auto simp: adm)
    then have e: "epoch_or_0 i = d" by (simp add: epoch_or_0_def)
    with assms h have "\<bar>d * 1000\<bar> \<le> 8640000000000000" by auto
    from with_gradeDate_admitted[OF a d this] e show "with_gradeDate i = Inr (graded_of i)"
      by (simp add: graded_of_def)
  qed
  then have out: "upgrades_downgrades cutoffTs history = Inr (map graded_of ?kept)"
    unfolding upgrades_downgrades_def by (rule map_exn_all_Inr)
  have srt: "sorted (map (\<lambda>i. - epoch_or_0 i) ?kept)"
    using sortedf by (rule uniqueByFirm_sorted)
  have "map (\<lambda>i. - epoch_or_0 i) ?kept = map uminus (map epoch_or_0 ?kept)"
    by simp
  with srt have desc: "sorted (rev (map epoch_or_0 ?kept))"
    by (simp add: sorted_map sorted_wrt_rev sorted_wrt_map rev_map)
  have rep: "\<exists>k\<in>set ?kept. firm k = firm i \<and> d \<le> epoch_or_0 k"
    if "i \<in> set history" "epochGradeDate i = Some d \<and> d \<noteq> 0 \<and> cutoffTs \<le> d" for i d
  proof -
    from that have "i \<in> set ?f" by (auto simp: setf adm)
    from uniqueByFirm_first[OF sortedf this, of "{}"] that(2)
    show ?thesis by (auto simp: epoch_or_0_def)
  qed
  show ?thesis
    apply (rule exI[of _ ?kept])
    using out sub desc uniqueByFirm_distinct[of "{}" ?f] rep
    by (auto simp: adm)
qed

lemma cutoff_example: "cutoffTs_of 1767225600000 1200 = - 1343174400"
  by (simp add: cutoffTs_of_def)

lemma upgrades_downgrades_example:
  "upgrades_downgrades (cutoffTs_of 1767225600000 1200) example_history =
     Inr [\<lparr>item = \<lparr>firm = ''A'', epochGradeDate = Some 300, other_fields = ()\<rparr>,
           gradeDate = Some (ISO 300000)\<rparr>,
          \<lparr>item = \<lparr>firm = ''B'', epochGradeDate = Some 100, other_fields = ()\<rparr>,
           gradeDate = Some (ISO 100000)\<rparr>]"
  by (simp add: cutoff_example upgrades_downgrades_def filtered_def admitted_def epoch_or_0_def
        with_gradeDate_def toISOString_def example_history_def)

theorem recommendation_filter_sort_dedup_witness:
  "\<exists>kept. upgrades_downgrades (cutoffTs_of 1767225600000 1200) example_history =
            Inr (map graded_of kept)
          \<and> sorted (rev (map epoch_or_0 kept))
          \<and> distinct (map firm kept)"
proof -
  have r: "\<forall>i\<in>set example_history. \<bar>epoch_or_0 i * 1000\<bar> \<le> 8640000000000000"
    by (simp add: example_history_def epoch_or_0_def)
  from recommendation_filter_sort_dedup[OF r, of "cutoffTs_of 1767225600000 1200"]
  show ?thesis by blast
qed

text \<open>An entry dated at the epoch itself is present and not before the cutoff, and is dropped.\<close>

theorem epoch_zero_dropped:
  "epochGradeDate \<lparr>firm = ''A'', epochGradeDate = Some 0, other_fields = ()\<rparr> = Some 0
   \<and> cutoffTs_of 1767225600000 1200 \<le> 0
   \<and> upgrades_downgrades (cutoffTs_of 1767225600000 1200)
        [\<lparr>firm = ''A'', epochGradeDate = Some 0, other_fields = ()\<rparr>] = Inr []"
  by (simp add: cutoff_example upgrades_downgrades_def filtered_def admitted_def)

subsection \<open>Assignments to an object under construction\<close>

lemma js_set_plain: "k \<noteq> ''__proto__'' \<Longrightarrow> js_set k v (own, p) = (assign_prop k v own, p)"
  by (simp add: js_set_def)

lemma assign_prop_new: "k \<notin> fst ` set kvs \<Longrightarrow> assign_prop k v kvs = kvs @ [(k, v)]"
  by (induction kvs) auto

lemma map_of_assign_prop: "map_of (assign_prop k v kvs) = (map_of kvs)(k \<mapsto> v)"
  by (induction kvs) (auto simp: fun_eq_iff)

lemma map_of_js_set:
  "k \<noteq> ''__proto__'' \<Longrightarrow> map_of (fst (js_set k' v obj)) k = ((map_of (fst obj))(k' \<mapsto> v)) k"
  by (cases obj) (auto simp: js_set_def map_of_assign_prop)

text \<open>
  A run of assignments with distinct names, none of them yet a property: every name is
  added in order, except \<^verbatim>\<open>__proto__\<close> when it reaches the setter.
\<close>

lemma foldl_js_set_distinct:
  assumes "distinct (map fst own @ map fst xs)"
      and "''__proto__'' \<notin> fst ` set own"
      and "inherits_setter p \<or> ''__proto__'' \<notin> fst ` set xs"
  shows "fst (foldl (\<lambda>obj (k, x). js_set k x obj) (own, p) xs) =
           own @ filter (\<lambda>kv. fst kv \<noteq> ''__proto__'') xs"
  using assms
proof (induction xs arbitrary: own p)
  case Nil
  then show ?case by simp
next
  case (Cons kv xs)
  obtain k x where kv: "kv = (k, x)" by (cases kv)
  show ?case
  proof (cases "k = ''__proto__''")
    case True
    with Cons.prems kv have setter: "inherits_setter p" and rest: "''__proto__'' \<notin> fst ` set xs"
      by auto
    from True setter Cons.prems(2) have step: "js_set k x (own, p) = (own, proto_setter x p)"
      by (simp add: js_set_def)
    from Cons.prems(1) kv have "distinct (map fst own @ map fst xs)"
      by auto
    from Cons.IH[OF this Cons.prems(2), of "proto_setter x p"] rest step True kv
    show ?thesis by simp
  next
    case False
    from Cons.prems(1) kv have new: "k \<notin> fst ` set own"
      by auto
    with False have step: "js_set k x (own, p) = (own @ [(k, x)], p)"
      by (simp add: js_set_def assign_prop_new)
    from Cons.prems(1) kv have d: "distinct (map fst (own @ [(k, x)]) @ map fst xs)"
      by auto
    from Cons.prems(2) False have n: "''__proto__'' \<notin> fst ` set (own @ [(k, x)])"
      by auto
    from Cons.prems(3) kv False have s: "inherits_setter p \<or> ''__proto__'' \<notin> fst ` set xs"
      by auto
    from Cons.IH[OF d n s] step False kv show ?thesis by simp
  qed
qed

subsection \<open>Flattening a statement\<close>

lemma has_prop_raw: "(truthy v \<and> typeof_object v \<and> has_prop ''raw'' v) = raw_wrapper v"
  by (cases v) (auto simp: raw_wrapper_def)

lemma has_prop_fmt: "(truthy v \<and> typeof_object v \<and> has_prop ''fmt'' v) = fmt_wrapper v"
  by (cases v) (auto simp: fmt_wrapper_def)

lemma flatten_field_plain:
  "\<not> raw_wrapper v \<Longrightarrow> \<not> (key = ''endDate'' \<and> fmt_wrapper v) \<Longrightarrow>
     flatten_field obj (key, v) = js_set key v obj"
  using has_prop_raw[of v] has_prop_fmt[of v] by (auto simp: flatten_field_def)

text \<open>
  On a flat statement the transform copies every field except one named \<^verbatim>\<open>__proto__\<close>:
  that assignment runs the inherited setter and creates no property.
\<close>

lemma flatten_flat_statement:
  assumes "distinct (map fst stmt)"
      and "\<forall>(key, v)\<in>set stmt. \<not> raw_wrapper v"
      and "\<forall>v. (''endDate'', v) \<in> set stmt \<longrightarrow> \<not> fmt_wrapper v"
  shows "flatten_stmt (JObj stmt) = Inr (JObj (filter (\<lambda>kv. fst kv \<noteq> ''__proto__'') stmt))"
proof -
  have "foldl flatten_field empty_object stmt =
          foldl (\<lambda>obj (k, x). js_set k x obj) empty_object stmt"
  proof (rule foldl_cong[OF refl refl])
    fix obj kv assume mem: "kv \<in> set stmt"
    obtain k x where kv: "kv = (k, x)"
      by (cases kv)
    from mem kv have m: "(k, x) \<in> set stmt"
      by simp
    from m assms(2) have "\<not> raw_wrapper x" by auto
    moreover from m assms(3) have "\<not> (k = ''endDate'' \<and> fmt_wrapper x)" by auto
    ultimately show "flatten_field obj kv = (case kv of (k, x) \<Rightarrow> js_set k x obj)"
      by (simp add: kv flatten_field_plain)
  qed
  moreover have "fst (foldl (\<lambda>obj (k, x). js_set k x obj) ([], ObjectPrototype) stmt) =
                   [] @ filter (\<lambda>kv. fst kv \<noteq> ''__proto__'') stmt"
    using assms(1) by (intro foldl_js_set_distinct) simp_all
  ultimately show ?thesis
    by (simp add: flatten_stmt_def object_entries_def flatten_entries_def empty_object_def)
qed

text \<open>
  Claim C9 (flattening is a no-op on flat statements), as the code has it. A statement
  object (each property name once) with no field whose value is an object with the key
  \<open>raw\<close>, with no \<open>endDate\<close> field whose value is an object with the key \<open>fmt\<close>, and with
  no field named \<^verbatim>\<open>__proto__\<close>, is returned by the per-statement transform as it is.
\<close>

theorem flatten_fixed_point:
  assumes "distinct (map fst stmt)"
      and "\<forall>(key, v)\<in>set stmt. \<not> raw_wrapper v"
      and "\<forall>v. (''endDate'', v) \<in> set stmt \<longrightarrow> \<not> fmt_wrapper v"
      and "''__proto__'' \<notin> fst ` set stmt"
  shows "flatten_stmt (JObj stmt) = Inr (JObj stmt)"
proof -
  from assms(4) have "filter (\<lambda>kv. fst kv \<noteq> ''__proto__'') stmt = stmt"
    by (induction stmt) auto
  with flatten_flat_statement[OF assms(1-3)] show ?thesis by simp
qed

theorem flatten_fixed_point_witness:
  "flatten_stmt (JObj flat_statement) = Inr (JObj flat_statement)"
proof -
  have 1: "distinct (map fst flat_statement)"
    by (simp add: flat_statement_def)
  have 2: "\<forall>(key, v)\<in>set flat_statement. \<not> raw_wrapper v"
    by (simp add: flat_statement_def raw_wrapper_def)
  have 3: "\<forall>v. (''endDate'', v) \<in> set flat_statement \<longrightarrow> \<not> fmt_wrapper v"
    by (simp add: flat_statement_def)
  have 4: "''__proto__'' \<notin> fst ` set flat_statement"
    by (simp add: flat_statement_def)
  show ?thesis by (rule flatten_fixed_point[OF 1 2 3 4])
qed

text \<open>
  A flat statement with a field named \<^verbatim>\<open>__proto__\<close>: the transform returns it without that
  field.
\<close>

theorem flatten_loses_proto_field:
  "flatten_stmt (JObj [(''__proto__'', JNum 1), (''a'', JNum 2)]) = Inr (JObj [(''a'', JNum 2)])"
  by (simp add: flatten_stmt_def object_entries_def flatten_entries_def flatten_field_def
        js_set_def empty_object_def)

lemma flatten_unwraps_example:
  "flatten_stmt (JObj [(''endDate'', JObj [(''raw'', JNum 1703980800), (''fmt'', JStr ''2023-12-31'')]),
                       (''totalRevenue'', JObj [(''raw'', JNum 1000), (''fmt'', JStr ''1k'')]),
                       (''period'', JObj [(''fmt'', JStr ''FY'')])]) =
     Inr (JObj [(''endDate'', JNum 1703980800), (''totalRevenue'', JNum 1000),
                (''period'', JObj [(''fmt'', JStr ''FY'')])])"
  by (simp add: flatten_stmt_def object_entries_def flatten_entries_def flatten_field_def
        js_set_def empty_object_def)

subsection \<open>Merging the modules of the stock information\<close>

lemma map_of_foldl_js_set:
  "k \<noteq> ''__proto__'' \<Longrightarrow>
     map_of (fst (foldl (\<lambda>obj (k', x). js_set k' x obj) obj xs)) k =
       (map_of (fst obj) ++ map_of (rev xs)) k"
proof (induction xs arbitrary: obj)
  case Nil
  then show ?case by simp
next
  case (Cons kv xs)
  obtain k' x where kv: "kv = (k', x)" by (cases kv)
  have "map_of (fst (foldl (\<lambda>obj (k', x). js_set k' x obj) (js_set k' x obj) xs)) k =
          (map_of (fst (js_set k' x obj)) ++ map_of (rev xs)) k"
    by (rule Cons.IH[OF Cons.prems])
  also have "\<dots> = (map_of (fst obj) ++ map_of (rev xs @ [(k', x)])) k"
    using map_of_js_set[OF Cons.prems, of k' x obj]
    by (auto simp: map_add_def split: option.splits)
  finally show ?case by (simp add: kv)
qed

lemma map_of_object_assign:
  "k \<noteq> ''__proto__'' \<Longrightarrow>
     map_of (fst (object_assign target source)) k =
       (map_of (fst target) ++ map_of (rev (own_entries source))) k"
  by (simp add: object_assign_def map_of_foldl_js_set)

lemma merged_entries_Cons:
  "merged_entries ((m, v) # xs) = (if mergeable v then own_entries v else []) @ merged_entries xs"
  by (simp add: merged_entries_def)

lemma map_of_merge_fold:
  "k \<noteq> ''__proto__'' \<Longrightarrow>
     map_of (fst (foldl (\<lambda>info (m, v). if mergeable v then object_assign info v else info)
                    acc entries)) k =
       (map_of (fst acc) ++ map_of (rev (merged_entries entries))) k"
proof (induction entries arbitrary: acc)
  case Nil
  then show ?case by (simp add: merged_entries_def)
next
  case (Cons mv entries)
  obtain m v where mv: "mv = (m, v)" by (cases mv)
  show ?case
  proof (cases "mergeable v")
    case True
    have "map_of (fst (foldl (\<lambda>info (m, v). if mergeable v then object_assign info v else info)
                         (object_assign acc v) entries)) k =
            (map_of (fst (object_assign acc v)) ++ map_of (rev (merged_entries entries))) k"
      by (rule Cons.IH[OF Cons.prems])
    also have "\<dots> = (map_of (fst acc) ++
                      map_of (rev (merged_entries entries) @ rev (own_entries v))) k"
      using map_of_object_assign[OF Cons.prems, of acc v]
      by (auto simp: map_add_def split: option.splits)
    finally show ?thesis
      using True by (simp add: mv merged_entries_Cons)
  next
    case False
    with Cons.IH[OF Cons.prems, of acc] show ?thesis
      by (simp add: mv merged_entries_Cons)
  qed
qed

lemma merged_entries_key:
  "k \<in> fst ` set (merged_entries xs) \<Longrightarrow>
     \<exists>(m, v)\<in>set xs. mergeable v \<and> k \<in> fst ` set (own_entries v)"
proof (induction xs)
  case Nil
  then show ?case by (simp add: merged_entries_def)
next
  case (Cons mv xs)
  obtain m v where mv: "mv = (m, v)" by (cases mv)
  from Cons.prems mv
  have "(mergeable v \<and> k \<in> fst ` set (own_entries v)) \<or> k \<in> fst ` set (merged_entries xs)"
    by (auto simp: merged_entries_Cons split: if_splits)
  with Cons.IH mv show ?case by auto
qed

lemma map_of_rev_distinct: "distinct (map fst kvs) \<Longrightarrow> map_of (rev kvs) = map_of kvs"
  by (rule map_of_inject_set[THEN iffD2]) (simp_all add: rev_map[symmetric])

lemma mergeable_iff: "mergeable v = ((\<exists>kvs. v = JObj kvs) \<or> (\<exists>xs. v = JArr xs))"
  by (cases v) (simp_all add: mergeable_def)

text \<open>
  Claim C10 (stock-info merge is last-writer-wins), as the code has it. For every field
  name other than \<^verbatim>\<open>__proto__\<close>, the value the merged object holds is the last definition of
  that field in iteration order over the modules that are merged; the merged modules are
  the objects (arrays count as objects for \<^verbatim>\<open>typeof\<close>), every other value is skipped; so
  when a module defines such a field and no later merged module does, the output holds
  that module's value, whatever earlier modules said.
\<close>

theorem stock_info_last_writer_wins:
  "(k \<noteq> ''__proto__'' \<longrightarrow>
      map_of (merge_modules result) k = map_of (rev (merged_entries result)) k)
   \<and> (mergeable v = ((\<exists>kvs. v = JObj kvs) \<or> (\<exists>xs. v = JArr xs)))
   \<and> (k \<noteq> ''__proto__'' \<and>
        result = before @ [(m, JObj kvs)] @ after \<and> distinct (map fst kvs) \<and>
        map_of kvs k = Some x \<and>
        (\<forall>(m', v')\<in>set after. mergeable v' \<longrightarrow> k \<notin> fst ` set (own_entries v')) \<longrightarrow>
        map_of (merge_modules result) k = Some x)"
proof (intro conjI impI)
  have main: "map_of (merge_modules r) k = map_of (rev (merged_entries r)) k"
    if "k \<noteq> ''__proto__''" for r
    using map_of_merge_fold[OF that, of empty_object r]
    by (simp add: merge_modules_def empty_object_def)
  {
    assume "k \<noteq> ''__proto__''"
    then show "map_of (merge_modules result) k = map_of (rev (merged_entries result)) k"
      by (rule main)
  }
  show "mergeable v = ((\<exists>kvs. v = JObj kvs) \<or> (\<exists>xs. v = JArr xs))"
    by (rule mergeable_iff)
  assume h: "k \<noteq> ''__proto__'' \<and>
        result = before @ [(m, JObj kvs)] @ after \<and> distinct (map fst kvs) \<and>
        map_of kvs k = Some x \<and>
        (\<forall>(m', v')\<in>set after. mergeable v' \<longrightarrow> k \<notin> fst ` set (own_entries v'))"
  then have "k \<notin> fst ` set (merged_entries after)"
    by (auto dest!: merged_entries_key)
  then have later: "map_of (rev (merged_entries after)) k = None"
    by (simp add: map_of_eq_None_iff)
  have split: "merged_entries result = merged_entries before @ kvs @ merged_entries after"
    using h by (simp add: merged_entries_def mergeable_def)
  from h have here: "map_of (rev kvs) k = Some x"
    by (simp add: map_of_rev_distinct)
  from h have "map_of (merge_modules result) k = map_of (rev (merged_entries result)) k"
    by (intro main) simp
  also have "\<dots> = Some x"
    unfolding split using later here by (simp add: map_add_def)
  finally show "map_of (merge_modules result) k = Some x" .
qed

lemma merge_modules_example:
  "merge_modules example_modules =
     [(''maxAge'', JNum 1), (''currency'', JStr ''EUR''), (''symbol'', JStr ''SAP'')]"
  by (simp add: merge_modules_def example_modules_def mergeable_def object_assign_def
        js_set_def empty_object_def)

theorem stock_info_last_writer_wins_witness:
  "example_modules =
     [(''summaryDetail'', JObj [(''maxAge'', JNum 1), (''currency'', JStr ''USD'')]),
      (''note'', JStr ''n/a'')]
     @ [(''price'', JObj [(''currency'', JStr ''EUR''), (''symbol'', JStr ''SAP'')])]
     @ [(''calendarEvents'', JNull)]
   \<and> map_of (merge_modules example_modules) ''currency'' = Some (JStr ''EUR'')"
proof -
  have e: "example_modules =
     [(''summaryDetail'', JObj [(''maxAge'', JNum 1), (''currency'', JStr ''USD'')]),
      (''note'', JStr ''n/a'')]
     @ [(''price'', JObj [(''currency'', JStr ''EUR''), (''symbol'', JStr ''SAP'')])]
     @ [(''calendarEvents'', JNull)]"
    by (simp add: example_modules_def)
  have "''currency'' \<noteq> ''__proto__''"
       "distinct (map fst [(''currency'', JStr ''EUR''), (''symbol'', JStr ''SAP'')])"
       "map_of [(''currency'', JStr ''EUR''), (''symbol'', JStr ''SAP'')] ''currency'' = Some (JStr ''EUR'')"
       "\<forall>(m', v')\<in>set [(''calendarEvents'', JNull)].
           mergeable v' \<longrightarrow> ''currency'' \<notin> fst ` set (own_entries v')"
    by (simp_all add: mergeable_def)
  with e stock_info_last_writer_wins[of "''currency''" example_modules JNull
         "[(''summaryDetail'', JObj [(''maxAge'', JNum 1), (''currency'', JStr ''USD'')]),
           (''note'', JStr ''n/a'')]"
         "''price''" "[(''currency'', JStr ''EUR''), (''symbol'', JStr ''SAP'')]"
         "[(''calendarEvents'', JNull)]" "JStr ''EUR''"]
  show ?thesis by blast
qed

text \<open>
  Two modules define \<^verbatim>\<open>__proto__\<close>: each assignment runs the setter (a string is ignored),
  and the output holds neither value.
\<close>

theorem proto_field_not_merged:
  "merge_modules [(''a'', JObj [(''__proto__'', JStr ''x''), (''k'', JNum 1)]),
                  (''b'', JObj [(''__proto__'', JStr ''y'')])] = [(''k'', JNum 1)]"
  by (simp add: merge_modules_def mergeable_def object_assign_def js_set_def empty_object_def)

text \<open>After a module has set the prototype to \<^verbatim>\<open>null\<close> the name is an ordinary one.\<close>

lemma proto_field_after_null:
  "merge_modules [(''a'', JObj [(''__proto__'', JNull), (''k'', JNum 1)]),
                  (''b'', JObj [(''__proto__'', JStr ''y'')])] =
     [(''k'', JNum 1), (''__proto__'', JStr ''y'')]"
  by (simp add: merge_modules_def mergeable_def object_assign_def js_set_def empty_object_def)

section \<open>Properties of the tool boundary\<close>
















end
